theory Spec2Isabelle
  imports Complex_Main
begin

section \<open>Python values, objects and the object store\<close>

text \<open>
  The module \<^verbatim>\<open>matlab.py\<close> is a layer of wrappers over routines that live in other
  modules (\<^verbatim>\<open>statesp\<close>, \<^verbatim>\<open>xferfcn\<close>, \<^verbatim>\<open>freqplot\<close>, \<^verbatim>\<open>timeresp\<close>, \<^verbatim>\<open>ctrlutil\<close>,
  \<^verbatim>\<open>scipy.signal\<close>, \<^verbatim>\<open>numpy\<close>). The wrappers are embedded as state-passing functions
  over an explicit object store; the routines of the other modules are a parameter
  (the environment), and every invocation of one of them is recorded.

  Immutable Python values are immediate; mutable objects live in the store and are
  denoted by a reference (their address). Floats are abstracted to reals: the module
  itself does no arithmetic on them.
\<close>

type_synonym addr = nat

datatype pyval =
    PyNone
  | PyBool bool
  | PyInt int
  | PyFloat real
  | PyStr string
  | PyTuple "pyval list"
  | PyMethod
  | Ref addr

text \<open>
  \<open>PyMethod\<close> stands for a bound method (a callable attribute value such as the
  \<^verbatim>\<open>__iter__\<close> of a list). The classes \<^verbatim>\<open>StateSpace\<close> and \<^verbatim>\<open>TransferFunction\<close> are declared
  outside this module; of their instances the module uses the attributes \<^verbatim>\<open>A\<close>, \<^verbatim>\<open>B\<close>,
  \<^verbatim>\<open>C\<close>, \<^verbatim>\<open>D\<close> (in \<^verbatim>\<open>dcgain\<close>) and the constructor arguments \<^verbatim>\<open>num\<close>, \<^verbatim>\<open>den\<close>.
  \<open>NdArray\<close> is a \<^verbatim>\<open>numpy.ndarray\<close> (or its subclass \<^verbatim>\<open>numpy.matrix\<close>) with numeric
  entries; \<open>Instance\<close> is an object of any other class, with the attributes that are
  visible on it. \<open>AtomicObj\<close> is an object that \<^verbatim>\<open>copy.deepcopy\<close> treats as atomic and
  returns as it is, such as a function or a class, with its name and its attributes
  (they can be assigned to, so the object is mutable); \<open>UncopyableObj\<close> is an object
  that \<^verbatim>\<open>copy.deepcopy\<close> cannot copy, such as a lock.
\<close>

datatype pyobj =
    ListObj "pyval list"
  | NdArray "real list list"
  | StateSpaceObj pyval pyval pyval pyval
  | TransferFunctionObj pyval pyval
  | Instance string "(string \<times> pyval) list"
  | AtomicObj string "(string \<times> pyval) list"
  | UncopyableObj

type_synonym heap = "pyobj list"

datatype exn =
    ValueError
  | TypeError
  | IndexError
  | AttributeError
  | ControlArgument
  | OtherError string

text \<open>
  Exceptions are identified by their class; message texts are not modelled.
  \<open>ControlArgument\<close> is the class imported from the module \<^verbatim>\<open>exception\<close>;
  \<open>OtherError\<close> is any further class an external routine may raise.

  A failing call records where its exception comes from: \<open>Raised\<close> for a
  \<^verbatim>\<open>raise\<close> statement of this module, \<open>Propagated\<close> for an exception that the
  interpreter or an external routine raised and the wrapper lets through.
\<close>

datatype failure = Raised exn | Propagated exn

datatype routine =
    StateSpace
  | TransferFunction
  | convertToTransferFunction
  | convertToStateSpace
  | zpk2ss
  | freqplot_bode
  | freqplot_margin
  | StepResponse
  | ImpulseResponse
  | InitialResponse
  | ForcedResponse
  | op_iter
  | op_getitem
  | op_getattr string
  | op_mul
  | op_sub

type_synonym kwargs = "(string \<times> pyval) list"

type_synonym call = "routine \<times> pyval list \<times> kwargs"

record state =
  heap :: heap
  calls :: "call list"
  stdout :: "string list"

text \<open>
  The environment: \<open>extern\<close> gives the behaviour of each external routine on positional
  and keyword arguments (it may read and change the store and may raise), \<open>issys\<close> is
  the type predicate \<^verbatim>\<open>ctrlutil.issys\<close>.
\<close>

record env =
  extern :: "routine \<Rightarrow> pyval list \<Rightarrow> kwargs \<Rightarrow> heap \<Rightarrow> (exn + pyval) \<times> heap"
  issys :: "heap \<Rightarrow> pyval \<Rightarrow> bool"

type_synonym 'a comp = "state \<Rightarrow> (failure + 'a) \<times> state"

definition and_then :: "'a comp \<Rightarrow> ('a \<Rightarrow> 'b comp) \<Rightarrow> 'b comp" where
  "and_then m f st = (case m st of (Inl e, st') \<Rightarrow> (Inl e, st') | (Inr x, st') \<Rightarrow> f x st')"

definition returns :: "'a \<Rightarrow> 'a comp" where
  "returns x st = (Inr x, st)"

definition raise :: "exn \<Rightarrow> 'a comp" where
  "raise e st = (Inl (Raised e), st)"

definition fail :: "exn \<Rightarrow> 'a comp" where
  "fail e st = (Inl (Propagated e), st)"

definition invoke :: "env \<Rightarrow> routine \<Rightarrow> pyval list \<Rightarrow> kwargs \<Rightarrow> pyval comp" where
  "invoke env r args kw st =
     (case extern env r args kw (heap st) of
        (res, h') \<Rightarrow>
          (case res of Inl e \<Rightarrow> Inl (Propagated e) | Inr v \<Rightarrow> Inr v,
           st\<lparr>heap := h', calls := calls st @ [(r, args, kw)]\<rparr>))"

definition lookup :: "heap \<Rightarrow> addr \<Rightarrow> pyobj option" where
  "lookup h a = (if a < length h then Some (h ! a) else None)"

subsection \<open>Type tests\<close>

text \<open>
  \<^verbatim>\<open>isinstance(v, StateSpace)\<close> holds of the objects \<open>StateSpaceObj\<close>, which stand for
  the instances of the class and of its subclasses; likewise for \<^verbatim>\<open>TransferFunction\<close>.
\<close>

definition is_StateSpace :: "heap \<Rightarrow> pyval \<Rightarrow> bool" where
  "is_StateSpace h v =
     (case v of
        Ref a \<Rightarrow> (case lookup h a of Some (StateSpaceObj _ _ _ _) \<Rightarrow> True | _ \<Rightarrow> False)
      | _ \<Rightarrow> False)"

definition is_TransferFunction :: "heap \<Rightarrow> pyval \<Rightarrow> bool" where
  "is_TransferFunction h v =
     (case v of
        Ref a \<Rightarrow> (case lookup h a of Some (TransferFunctionObj _ _) \<Rightarrow> True | _ \<Rightarrow> False)
      | _ \<Rightarrow> False)"

definition is_str :: "pyval \<Rightarrow> bool" where
  "is_str v = (case v of PyStr _ \<Rightarrow> True | _ \<Rightarrow> False)"

definition is_list_or_ndarray :: "heap \<Rightarrow> pyval \<Rightarrow> bool" where
  "is_list_or_ndarray h v =
     (case v of
        Ref a \<Rightarrow> (case lookup h a of
                    Some (ListObj _) \<Rightarrow> True
                  | Some (NdArray _) \<Rightarrow> True
                  | _ \<Rightarrow> False)
      | _ \<Rightarrow> False)"

section \<open>The standard library's deepcopy\<close>

text \<open>
  \<^verbatim>\<open>copy.deepcopy\<close> belongs to the Python standard library. It is modelled by what it
  does on the store. It walks from its argument through lists, tuples, arrays and
  instances (\<open>reach\<close>); an atomic object (a function, a class) is met but not
  entered. If the walk meets an object that cannot be copied, \<^verbatim>\<open>deepcopy\<close> raises
  \<^verbatim>\<open>TypeError\<close> (the copies made up to then are unreachable and left out of the
  store). Otherwise every object met gets one fresh copy, except the atomic ones, which
  the copy shares with the original; sharing and cycles are preserved, as the memo of
  \<^verbatim>\<open>deepcopy\<close> does; references inside the copies are redirected to the copies; and
  nothing that exists is written. Classes that define their own \<^verbatim>\<open>__deepcopy__\<close> are not
  modelled.
\<close>

fun val_refs :: "pyval \<Rightarrow> addr list" where
  "val_refs (Ref a) = [a]"
| "val_refs (PyTuple xs) = concat (map val_refs xs)"
| "val_refs _ = []"

fun obj_refs :: "pyobj \<Rightarrow> addr list" where
  "obj_refs (ListObj xs) = concat (map val_refs xs)"
| "obj_refs (NdArray _) = []"
| "obj_refs (StateSpaceObj a b c d) = val_refs a @ val_refs b @ val_refs c @ val_refs d"
| "obj_refs (TransferFunctionObj n d) = val_refs n @ val_refs d"
| "obj_refs (Instance _ attrs) = concat (map (\<lambda>kv. val_refs (snd kv)) attrs)"
| "obj_refs (AtomicObj _ attrs) = concat (map (\<lambda>kv. val_refs (snd kv)) attrs)"
| "obj_refs UncopyableObj = []"

definition is_atomic :: "pyobj \<Rightarrow> bool" where
  "is_atomic obj = (case obj of AtomicObj _ _ \<Rightarrow> True | _ \<Rightarrow> False)"

text \<open>The references that \<^verbatim>\<open>deepcopy\<close> follows out of an object.\<close>

definition copy_refs :: "pyobj \<Rightarrow> addr list" where
  "copy_refs obj = (if is_atomic obj then [] else obj_refs obj)"

function reach :: "heap \<Rightarrow> addr list \<Rightarrow> addr list \<Rightarrow> addr list" where
  "reach h [] vis = vis"
| "reach h (a # ws) vis =
     (if a \<in> set vis \<or> length h \<le> a then reach h ws vis
      else reach h (copy_refs (h ! a) @ ws) (vis @ [a]))"
  by pat_completeness auto
termination
proof (relation "measures [\<lambda>(h, ws, vis). length h - card (set vis \<inter> {..<length h}),
                            \<lambda>(h, ws, vis). length ws]")
  show "wf (measures [\<lambda>(h, ws, vis). length h - card (set vis \<inter> {..<length h}),
                      \<lambda>(h, ws, vis). length ws])"
    by simp
next
  fix h :: heap and a :: addr and ws vis :: "addr list"
  assume "a \<in> set vis \<or> length h \<le> a"
  then show "((h, ws, vis), (h, a # ws, vis))
      \<in> measures [\<lambda>(h, ws, vis). length h - card (set vis \<inter> {..<length h}),
                  \<lambda>(h, ws, vis). length ws]"
    by simp
next
  fix h :: heap and a :: addr and ws vis :: "addr list"
  assume "\<not> (a \<in> set vis \<or> length h \<le> a)"
  then have a: "a \<notin> set vis" "a < length h"
    by auto
  have fin: "finite (set vis \<inter> {..<length h})"
    by simp
  have "card (set vis \<inter> {..<length h}) < card {..<length h}"
  proof (rule psubset_card_mono)
    show "finite {..<length h}" by simp
    show "set vis \<inter> {..<length h} \<subset> {..<length h}" using a by auto
  qed
  then have lt: "card (set vis \<inter> {..<length h}) < length h"
    by simp
  have "set (vis @ [a]) \<inter> {..<length h} = insert a (set vis \<inter> {..<length h})"
    using a by auto
  then have "card (set (vis @ [a]) \<inter> {..<length h}) = Suc (card (set vis \<inter> {..<length h}))"
    using a fin by simp
  with lt have "length h - card (set (vis @ [a]) \<inter> {..<length h})
      < length h - card (set vis \<inter> {..<length h})"
    by arith
  then show "((h, copy_refs (h ! a) @ ws, vis @ [a]), (h, a # ws, vis))
      \<in> measures [\<lambda>(h, ws, vis). length h - card (set vis \<inter> {..<length h}),
                  \<lambda>(h, ws, vis). length ws]"
    by simp
qed

declare reach.simps [simp del]

fun index_of :: "addr list \<Rightarrow> addr \<Rightarrow> nat option" where
  "index_of [] a = None"
| "index_of (x # xs) a = (if x = a then Some 0 else map_option Suc (index_of xs a))"

definition renaming :: "nat \<Rightarrow> addr list \<Rightarrow> addr \<Rightarrow> addr" where
  "renaming n R a = (case index_of R a of Some i \<Rightarrow> n + i | None \<Rightarrow> a)"

fun rename_val :: "(addr \<Rightarrow> addr) \<Rightarrow> pyval \<Rightarrow> pyval" where
  "rename_val f (Ref a) = Ref (f a)"
| "rename_val f (PyTuple xs) = PyTuple (map (rename_val f) xs)"
| "rename_val f v = v"

fun rename_obj :: "(addr \<Rightarrow> addr) \<Rightarrow> pyobj \<Rightarrow> pyobj" where
  "rename_obj f (ListObj xs) = ListObj (map (rename_val f) xs)"
| "rename_obj f (NdArray d) = NdArray d"
| "rename_obj f (StateSpaceObj a b c d) =
     StateSpaceObj (rename_val f a) (rename_val f b) (rename_val f c) (rename_val f d)"
| "rename_obj f (TransferFunctionObj n d) = TransferFunctionObj (rename_val f n) (rename_val f d)"
| "rename_obj f (Instance c attrs) = Instance c (map (\<lambda>kv. (fst kv, rename_val f (snd kv))) attrs)"
| "rename_obj f (AtomicObj c attrs) = AtomicObj c (map (\<lambda>kv. (fst kv, rename_val f (snd kv))) attrs)"
| "rename_obj f UncopyableObj = UncopyableObj"

text \<open>
  \<open>copied h R\<close> are the objects among \<open>R\<close> that get a copy. \<open>deepcopy_heap\<close> is
  \<open>None\<close> when \<^verbatim>\<open>deepcopy\<close> raises.
\<close>

definition copied :: "heap \<Rightarrow> addr list \<Rightarrow> addr list" where
  "copied h R = filter (\<lambda>a. \<not> is_atomic (h ! a)) R"

definition deepcopy_heap :: "heap \<Rightarrow> pyval \<Rightarrow> (pyval \<times> heap) option" where
  "deepcopy_heap h v =
     (let R = reach h (val_refs v) [] in
      if list_ex (\<lambda>a. h ! a = UncopyableObj) R then None
      else
        (let C = copied h R;
             f = renaming (length h) C
         in Some (rename_val f v, h @ map (\<lambda>a. rename_obj f (h ! a)) C)))"

definition deepcopy :: "pyval \<Rightarrow> pyval comp" where
  "deepcopy v st =
     (case deepcopy_heap (heap st) v of
        None \<Rightarrow> fail TypeError st
      | Some (v', h') \<Rightarrow> (Inr v', st\<lparr>heap := h'\<rparr>))"

section \<open>The conversion wrappers\<close>

text \<open>
  Each wrapper takes the tuple of its positional arguments, as the source's \<^verbatim>\<open>*args\<close>.
\<close>

definition ss2tf :: "env \<Rightarrow> pyval list \<Rightarrow> pyval comp" where
  "ss2tf env args st =
     (if length args = 4 then
        and_then (invoke env StateSpace [args ! 0, args ! 1, args ! 2, args ! 3] [])
          (\<lambda>s. invoke env convertToTransferFunction [s] []) st
      else if length args = 1 then
        (let sys = args ! 0 in
         if is_StateSpace (heap st) sys then invoke env convertToTransferFunction [sys] [] st
         else raise TypeError st)
      else raise ValueError st)"

definition tf2ss :: "env \<Rightarrow> pyval list \<Rightarrow> pyval comp" where
  "tf2ss env args st =
     (if length args = 2 then
        and_then (invoke env TransferFunction [args ! 0, args ! 1] [])
          (\<lambda>t. invoke env convertToStateSpace [t] []) st
      else if length args = 1 then
        (let sys = args ! 0 in
         if \<not> is_TransferFunction (heap st) sys then raise TypeError st
         else invoke env convertToStateSpace [sys] [] st)
      else raise ValueError st)"

definition ss :: "env \<Rightarrow> pyval list \<Rightarrow> pyval comp" where
  "ss env args st =
     (if length args = 4 then
        invoke env StateSpace [args ! 0, args ! 1, args ! 2, args ! 3] [] st
      else if length args = 1 then
        (let sys = args ! 0 in
         if is_StateSpace (heap st) sys then deepcopy sys st
         else if is_TransferFunction (heap st) sys then tf2ss env [sys] st
         else raise TypeError st)
      else raise ValueError st)"

definition tf :: "env \<Rightarrow> pyval list \<Rightarrow> pyval comp" where
  "tf env args st =
     (if length args = 2 then
        invoke env TransferFunction [args ! 0, args ! 1] [] st
      else if length args = 1 then
        (let sys = args ! 0 in
         if is_StateSpace (heap st) sys then ss2tf env [sys] st
         else if is_TransferFunction (heap st) sys then deepcopy sys st
         else raise TypeError st)
      else raise ValueError st)"

section \<open>Operations of the interpreter\<close>

text \<open>
  Indexing, iteration, attribute access and the arithmetic operators are dispatched on
  the class of the object. For tuples, strings and lists the result is computed here;
  for objects whose class is declared outside the standard library the operation is an
  external routine (\<open>op_getitem\<close>, \<open>op_iter\<close>, \<open>op_getattr\<close>, \<open>op_mul\<close>,
  \<open>op_sub\<close>). The module indexes with the literals 0, 1, 3 and 4 only.
\<close>

definition getitem :: "env \<Rightarrow> pyval \<Rightarrow> nat \<Rightarrow> pyval comp" where
  "getitem env v i st =
     (case v of
        PyTuple xs \<Rightarrow> (if i < length xs then returns (xs ! i) st else fail IndexError st)
      | PyStr s \<Rightarrow> (if i < length s then returns (PyStr [s ! i]) st else fail IndexError st)
      | Ref a \<Rightarrow>
          (case lookup (heap st) a of
             Some (ListObj xs) \<Rightarrow>
               (if i < length xs then returns (xs ! i) st else fail IndexError st)
           | Some (AtomicObj c attrs) \<Rightarrow> fail TypeError st
           | Some UncopyableObj \<Rightarrow> fail TypeError st
           | Some _ \<Rightarrow> invoke env op_getitem [v, PyInt (int i)] [] st
           | None \<Rightarrow> fail TypeError st)
      | _ \<Rightarrow> fail TypeError st)"

definition iter_items :: "env \<Rightarrow> pyval \<Rightarrow> (pyval list) comp" where
  "iter_items env v st =
     (case v of
        PyTuple xs \<Rightarrow> returns xs st
      | PyStr s \<Rightarrow> returns (map (\<lambda>c. PyStr [c]) s) st
      | Ref a \<Rightarrow>
          (case lookup (heap st) a of
             Some (ListObj xs) \<Rightarrow> returns xs st
           | Some (AtomicObj c attrs) \<Rightarrow> fail TypeError st
           | Some UncopyableObj \<Rightarrow> fail TypeError st
           | Some _ \<Rightarrow>
               and_then (invoke env op_iter [v] [])
                 (\<lambda>r. case r of PyTuple xs \<Rightarrow> returns xs | _ \<Rightarrow> fail TypeError) st
           | None \<Rightarrow> fail TypeError st)
      | _ \<Rightarrow> fail TypeError st)"

text \<open>The assignment \<^verbatim>\<open>x1, ..., xn = v\<close>.\<close>

definition unpack :: "env \<Rightarrow> nat \<Rightarrow> pyval \<Rightarrow> (pyval list) comp" where
  "unpack env n v =
     and_then (iter_items env v)
       (\<lambda>xs. if length xs = n then returns xs else fail ValueError)"

text \<open>
  The attribute access \<^verbatim>\<open>v.name\<close>, for the names the module reads (\<^verbatim>\<open>A\<close>, \<^verbatim>\<open>B\<close>,
  \<^verbatim>\<open>C\<close>, \<^verbatim>\<open>D\<close>, \<^verbatim>\<open>I\<close>).
\<close>

definition getattr :: "env \<Rightarrow> pyval \<Rightarrow> string \<Rightarrow> pyval comp" where
  "getattr env v name st =
     (case v of
        Ref a \<Rightarrow>
          (case lookup (heap st) a of
             Some (StateSpaceObj A B C D) \<Rightarrow>
               (if name = ''A'' then returns A st
                else if name = ''B'' then returns B st
                else if name = ''C'' then returns C st
                else if name = ''D'' then returns D st
                else invoke env (op_getattr name) [v] [] st)
           | Some (Instance c attrs) \<Rightarrow>
               (case map_of attrs name of
                  Some x \<Rightarrow> returns x st
                | None \<Rightarrow> fail AttributeError st)
           | Some (AtomicObj c attrs) \<Rightarrow>
               (case map_of attrs name of
                  Some x \<Rightarrow> returns x st
                | None \<Rightarrow> fail AttributeError st)
           | Some (ListObj xs) \<Rightarrow> fail AttributeError st
           | Some UncopyableObj \<Rightarrow> fail AttributeError st
           | Some _ \<Rightarrow> invoke env (op_getattr name) [v] [] st
           | None \<Rightarrow> fail AttributeError st)
      | _ \<Rightarrow> fail AttributeError st)"

text \<open>
  \<^verbatim>\<open>getattr(v, '__iter__', d)\<close>: tuples, lists and arrays define \<^verbatim>\<open>__iter__\<close>; the
  module is Python 2 code (implicit relative imports), where \<^verbatim>\<open>str\<close> does not; neither
  do the system classes, which \<^verbatim>\<open>bode(sys)\<close> takes as a single system.
\<close>

definition getattr_iter :: "heap \<Rightarrow> pyval \<Rightarrow> pyval \<Rightarrow> pyval" where
  "getattr_iter h v d =
     (case v of
        PyTuple xs \<Rightarrow> PyMethod
      | Ref a \<Rightarrow>
          (case lookup h a of
             Some (ListObj xs) \<Rightarrow> PyMethod
           | Some (NdArray m) \<Rightarrow> PyMethod
           | Some (Instance c attrs) \<Rightarrow>
               (case map_of attrs ''__iter__'' of Some x \<Rightarrow> x | None \<Rightarrow> d)
           | Some (AtomicObj c attrs) \<Rightarrow>
               (case map_of attrs ''__iter__'' of Some x \<Rightarrow> x | None \<Rightarrow> d)
           | _ \<Rightarrow> d)
      | _ \<Rightarrow> d)"

text \<open>
  The truth value of a Python value in a condition. An array of more than one element
  has none (\<^verbatim>\<open>ValueError\<close>); an instance is true (classes that override this are not
  modelled).
\<close>

definition truthy :: "heap \<Rightarrow> pyval \<Rightarrow> exn + bool" where
  "truthy h v =
     (case v of
        PyNone \<Rightarrow> Inr False
      | PyBool b \<Rightarrow> Inr b
      | PyInt i \<Rightarrow> Inr (i \<noteq> 0)
      | PyFloat x \<Rightarrow> Inr (x \<noteq> 0)
      | PyStr s \<Rightarrow> Inr (s \<noteq> [])
      | PyTuple xs \<Rightarrow> Inr (xs \<noteq> [])
      | PyMethod \<Rightarrow> Inr True
      | Ref a \<Rightarrow>
          (case lookup h a of
             Some (ListObj xs) \<Rightarrow> Inr (xs \<noteq> [])
           | Some (NdArray m) \<Rightarrow>
               (case concat m of [] \<Rightarrow> Inr False | [x] \<Rightarrow> Inr (x \<noteq> 0) | _ \<Rightarrow> Inl ValueError)
           | _ \<Rightarrow> Inr True))"

text \<open>
  The call \<^verbatim>\<open>f(*args, key=v, **keywords)\<close>: a key given twice is a \<^verbatim>\<open>TypeError\<close> of the
  interpreter, raised before \<^verbatim>\<open>f\<close> is entered.
\<close>

definition call_kw :: "env \<Rightarrow> routine \<Rightarrow> pyval list \<Rightarrow> string \<Rightarrow> pyval \<Rightarrow> kwargs \<Rightarrow> pyval comp" where
  "call_kw env r args key v keywords st =
     (if key \<in> set (map fst keywords) then fail TypeError st
      else invoke env r args ((key, v) # keywords) st)"

text \<open>A parameter with a default value: \<open>None\<close> when the caller leaves it out.\<close>

definition dflt :: "pyval \<Rightarrow> pyval option \<Rightarrow> pyval" where
  "dflt d x = (case x of None \<Rightarrow> d | Some v \<Rightarrow> v)"

section \<open>Frequency-domain wrappers\<close>

text \<open>
  The loop of \<^verbatim>\<open>bode\<close> over the index \<open>i\<close>. It ends with the index reached, the
  systems and plot styles collected and the frequency list (\<open>PyNone\<close> if there is
  none), or raises \<^verbatim>\<open>ControlArgument("unrecognized argument type")\<close>.
\<close>

function bode_loop :: "env \<Rightarrow> heap \<Rightarrow> pyval list \<Rightarrow> nat \<Rightarrow> pyval list \<Rightarrow> pyval list
    \<Rightarrow> failure + (nat \<times> pyval list \<times> pyval list \<times> pyval)" where
  "bode_loop env h args i syslist plotstyle =
     (if i < length args then
        (if issys env h (args ! i) then
           (if i + 1 < length args \<and> is_str (args ! (i + 1)) then
              bode_loop env h args (i + 2) (syslist @ [args ! i]) (plotstyle @ [args ! (i + 1)])
            else bode_loop env h args (i + 1) (syslist @ [args ! i]) plotstyle)
         else if is_list_or_ndarray h (args ! i) then Inr (i + 1, syslist, plotstyle, args ! i)
         else Inl (Raised ControlArgument))
      else Inr (i, syslist, plotstyle, PyNone))"
  by pat_completeness auto
termination
  by (relation "measure (\<lambda>(env, h, args, i, syslist, plotstyle). length args - i)") auto

declare bode_loop.simps [simp del]

text \<open>
  \<^verbatim>\<open>bode(*args, **keywords)\<close>. The list \<^verbatim>\<open>syslist\<close> is handed to \<^verbatim>\<open>freqplot.bode\<close>, so it
  is an object of the store; \<^verbatim>\<open>plotstyle\<close> never leaves the function.
\<close>

definition bode :: "env \<Rightarrow> pyval list \<Rightarrow> kwargs \<Rightarrow> pyval comp" where
  "bode env args keywords st =
     (if args = [] then fail IndexError st
      else
        (case truthy (heap st) (getattr_iter (heap st) (args ! 0) (PyBool False)) of
           Inl e \<Rightarrow> fail e st
         | Inr True \<Rightarrow> invoke env freqplot_bode args keywords st
         | Inr False \<Rightarrow>
             (case bode_loop env (heap st) args 0 [] [] of
                Inl f \<Rightarrow> (Inl f, st)
              | Inr (i, syslist, plotstyle, omega) \<Rightarrow>
                  (if i < length args then raise ControlArgument st
                   else if length plotstyle \<noteq> 0 \<and> length syslist \<noteq> length plotstyle then
                     raise ControlArgument st
                   else
                     (let st1 = (if length plotstyle \<noteq> 0 then
                                   st\<lparr>stdout := stdout st @
                                     [''Warning (matabl.bode): plot styles not implemented'']\<rparr>
                                 else st);
                          l = length (heap st1);
                          st2 = st1\<lparr>heap := heap st1 @ [ListObj syslist]\<rparr>
                      in invoke env freqplot_bode [Ref l, omega] keywords st2)))))"

definition margin :: "env \<Rightarrow> pyval list \<Rightarrow> pyval comp" where
  "margin env args =
     and_then
       (if length args = 1 then (let sys = args ! 0 in invoke env freqplot_margin [sys] [])
        else if length args = 3 then invoke env freqplot_margin [PyTuple args] []
        else raise ValueError)
       (\<lambda>margins.
          and_then (getitem env margins 0) (\<lambda>m0.
          and_then (getitem env margins 1) (\<lambda>m1.
          and_then (getitem env margins 3) (\<lambda>m3.
          and_then (getitem env margins 4) (\<lambda>m4.
          returns (PyTuple [m0, m1, m3, m4]))))))"

section \<open>Steady-state gain\<close>

definition dcgain :: "env \<Rightarrow> pyval list \<Rightarrow> pyval comp" where
  "dcgain env args =
     and_then
       (if length args = 4 then ss env [args ! 0, args ! 1, args ! 2, args ! 3]
        else if length args = 3 then
          and_then (invoke env zpk2ss [args ! 0, args ! 1, args ! 2] [])
            (\<lambda>r. and_then (unpack env 4 r)
               (\<lambda>m. ss env [m ! 0, m ! 1, m ! 2, m ! 3]))
        else if length args = 2 then tf2ss env [args ! 0, args ! 1]
        else if length args = 1 then ss env [args ! 0]
        else raise ValueError)
       (\<lambda>sys.
          and_then (getattr env sys ''D'') (\<lambda>d.
          and_then (getattr env sys ''C'') (\<lambda>c.
          and_then (getattr env sys ''A'') (\<lambda>a.
          and_then (getattr env a ''I'') (\<lambda>ai.
          and_then (invoke env op_mul [c, ai] []) (\<lambda>cai.
          and_then (getattr env sys ''B'') (\<lambda>b.
          and_then (invoke env op_mul [cai, b] []) (\<lambda>caib.
          invoke env op_sub [d, caib] []))))))))"

section \<open>Simulation wrappers\<close>

definition step :: "env \<Rightarrow> pyval \<Rightarrow> pyval option \<Rightarrow> pyval option \<Rightarrow> pyval option \<Rightarrow> pyval option
    \<Rightarrow> kwargs \<Rightarrow> pyval comp" where
  "step env sys T X0 input output keywords =
     and_then
       (call_kw env StepResponse
          [sys, dflt PyNone T, dflt (PyFloat 0) X0, dflt (PyInt 0) input, dflt (PyInt 0) output]
          ''transpose'' (PyBool True) keywords)
       (\<lambda>r. and_then (unpack env 2 r) (\<lambda>xs. returns (PyTuple [xs ! 0, xs ! 1])))"

definition impulse :: "env \<Rightarrow> pyval \<Rightarrow> pyval option \<Rightarrow> pyval option \<Rightarrow> pyval option \<Rightarrow> pyval option
    \<Rightarrow> kwargs \<Rightarrow> pyval comp" where
  "impulse env sys T X0 input output keywords =
     and_then
       (call_kw env ImpulseResponse
          [sys, dflt PyNone T, dflt (PyFloat 0) X0, dflt (PyInt 0) input, dflt (PyInt 0) output]
          ''transpose'' (PyBool True) keywords)
       (\<lambda>r. and_then (unpack env 2 r) (\<lambda>xs. returns (PyTuple [xs ! 0, xs ! 1])))"

definition initial :: "env \<Rightarrow> pyval \<Rightarrow> pyval option \<Rightarrow> pyval option \<Rightarrow> pyval option \<Rightarrow> pyval option
    \<Rightarrow> kwargs \<Rightarrow> pyval comp" where
  "initial env sys T X0 input output keywords =
     and_then
       (call_kw env InitialResponse
          [sys, dflt PyNone T, dflt (PyFloat 0) X0, dflt (PyInt 0) input, dflt (PyInt 0) output]
          ''transpose'' (PyBool True) keywords)
       (\<lambda>r. and_then (unpack env 2 r) (\<lambda>xs. returns (PyTuple [xs ! 0, xs ! 1])))"

definition lsim :: "env \<Rightarrow> pyval \<Rightarrow> pyval option \<Rightarrow> pyval option \<Rightarrow> pyval option
    \<Rightarrow> kwargs \<Rightarrow> pyval comp" where
  "lsim env sys U T X0 keywords =
     and_then
       (call_kw env ForcedResponse
          [sys, dflt PyNone T, dflt (PyFloat 0) U, dflt (PyFloat 0) X0]
          ''transpose'' (PyBool True) keywords)
       (\<lambda>r. and_then (unpack env 3 r) (\<lambda>xs. returns (PyTuple [xs ! 0, xs ! 1, xs ! 2])))"

section \<open>Well-formed stores and reachability\<close>

text \<open>
  A store is well formed when every reference held by one of its objects denotes an
  object of the store (Python has no dangling references). \<open>reaches h v a\<close>: the
  object at \<open>a\<close> can be reached from the value \<open>v\<close> by following references; these
  are the objects a mutation through \<open>v\<close> can write. \<open>copy_of h a h' b\<close>: in \<open>h'\<close>
  the object at \<open>b\<close> heads a replica of everything that \<open>a\<close> reaches in \<open>h\<close>: each
  reached object has its own new address, distinct objects have distinct ones, and the
  new object equals the old one with its references redirected to the new addresses.
\<close>

definition wf_heap :: "heap \<Rightarrow> bool" where
  "wf_heap h = (\<forall>obj \<in> set h. \<forall>a \<in> set (obj_refs obj). a < length h)"

inductive reaches :: "heap \<Rightarrow> pyval \<Rightarrow> addr \<Rightarrow> bool" where
  root: "a \<in> set (val_refs v) \<Longrightarrow> reaches h v a"
| field: "reaches h v a \<Longrightarrow> a < length h \<Longrightarrow> b \<in> set (obj_refs (h ! a)) \<Longrightarrow> reaches h v b"

text \<open>
  \<open>all_copied h v\<close>: every object that the walk of \<^verbatim>\<open>deepcopy\<close> from \<open>v\<close> meets is one
  it copies, neither atomic nor uncopyable.
\<close>

definition plain :: "pyobj \<Rightarrow> bool" where
  "plain obj = (\<not> is_atomic obj \<and> obj \<noteq> UncopyableObj)"

definition all_copied :: "heap \<Rightarrow> pyval \<Rightarrow> bool" where
  "all_copied h v = list_all (\<lambda>a. plain (h ! a)) (reach h (val_refs v) [])"

definition copy_of :: "heap \<Rightarrow> addr \<Rightarrow> heap \<Rightarrow> addr \<Rightarrow> bool" where
  "copy_of h a h' b =
     (\<exists>f. f a = b \<and>
        (\<forall>x. reaches h (Ref a) x \<longrightarrow>
           length h \<le> f x \<and> f x < length h' \<and> h' ! f x = rename_obj f (h ! x)) \<and>
        (\<forall>x y. reaches h (Ref a) x \<and> reaches h (Ref a) y \<and> f x = f y \<longrightarrow> x = y))"

section \<open>The value of an object\<close>

text \<open>
  Every call of a wrapper that succeeds returns an object that did not exist before,
  and the system classes define no equality of their own; two results can be equal
  only in what they hold. \<open>denote n h v\<close> unfolds the value \<open>v\<close> in the store \<open>h\<close>
  to depth \<open>n\<close>: the class and the immediate data of each object, and the unfoldings
  of its fields, with addresses left out. \<open>same_value\<close> is equality of all
  unfoldings. An external routine is \<open>value_determined\<close> when, on well-formed stores,
  arguments of the same value give results of the same value (or the same exception)
  and well-formed stores again. \<open>agree\<close> says the same of two outcomes of a wrapper.
\<close>

fun obj_vals :: "pyobj \<Rightarrow> pyval list" where
  "obj_vals (ListObj xs) = xs"
| "obj_vals (NdArray m) = []"
| "obj_vals (StateSpaceObj a b c d) = [a, b, c, d]"
| "obj_vals (TransferFunctionObj n d) = [n, d]"
| "obj_vals (Instance c attrs) = map snd attrs"
| "obj_vals (AtomicObj c attrs) = map snd attrs"
| "obj_vals UncopyableObj = []"

fun obj_skel :: "pyobj \<Rightarrow> pyobj" where
  "obj_skel (ListObj xs) = ListObj (map (\<lambda>x. PyNone) xs)"
| "obj_skel (NdArray m) = NdArray m"
| "obj_skel (StateSpaceObj a b c d) = StateSpaceObj PyNone PyNone PyNone PyNone"
| "obj_skel (TransferFunctionObj n d) = TransferFunctionObj PyNone PyNone"
| "obj_skel (Instance c attrs) = Instance c (map (\<lambda>kv. (fst kv, PyNone)) attrs)"
| "obj_skel (AtomicObj c attrs) = AtomicObj c (map (\<lambda>kv. (fst kv, PyNone)) attrs)"
| "obj_skel UncopyableObj = UncopyableObj"

datatype tree = Atom pyval | Tuple "tree list" | Node pyobj "tree list" | Cut

fun denote :: "nat \<Rightarrow> heap \<Rightarrow> pyval \<Rightarrow> tree" where
  "denote n h (PyTuple xs) = Tuple (map (denote n h) xs)"
| "denote 0 h (Ref a) = Cut"
| "denote (Suc n) h (Ref a) =
     (case lookup h a of
        None \<Rightarrow> Cut
      | Some obj \<Rightarrow> Node (obj_skel obj) (map (denote n h) (obj_vals obj)))"
| "denote n h v = Atom v"

text \<open>
  \<open>occurs n h v x\<close>: the walk of \<^verbatim>\<open>deepcopy\<close> from \<open>v\<close> meets the object at \<open>x\<close>
  within \<open>n\<close> steps. \<open>has_uncopyable t\<close>: the unfolding \<open>t\<close> shows an uncopyable
  object outside the atomic ones.
\<close>

fun occurs :: "nat \<Rightarrow> heap \<Rightarrow> pyval \<Rightarrow> addr \<Rightarrow> bool" where
  "occurs n h (PyTuple xs) x = (\<exists>w \<in> set xs. occurs n h w x)"
| "occurs 0 h (Ref a) x = False"
| "occurs (Suc n) h (Ref a) x =
     (a < length h \<and>
      (a = x \<or> (\<not> is_atomic (h ! a) \<and> (\<exists>w \<in> set (obj_vals (h ! a)). occurs n h w x))))"
| "occurs n h v x = False"

fun has_uncopyable :: "tree \<Rightarrow> bool" where
  "has_uncopyable (Node obj ts) =
     (obj = UncopyableObj \<or> (\<not> is_atomic obj \<and> (\<exists>t \<in> set ts. has_uncopyable t)))"
| "has_uncopyable (Tuple ts) = (\<exists>t \<in> set ts. has_uncopyable t)"
| "has_uncopyable t = False"

definition same_value :: "heap \<Rightarrow> pyval \<Rightarrow> heap \<Rightarrow> pyval \<Rightarrow> bool" where
  "same_value h1 v1 h2 v2 = (\<forall>n. denote n h1 v1 = denote n h2 v2)"

definition valid :: "heap \<Rightarrow> pyval \<Rightarrow> bool" where
  "valid h v = (\<forall>a \<in> set (val_refs v). a < length h)"

definition same_args :: "heap \<Rightarrow> pyval list \<Rightarrow> heap \<Rightarrow> pyval list \<Rightarrow> bool" where
  "same_args h1 args1 h2 args2 =
     list_all2 (\<lambda>v1 v2. valid h1 v1 \<and> valid h2 v2 \<and> same_value h1 v1 h2 v2) args1 args2"

definition agree_ext :: "(exn + pyval) \<times> heap \<Rightarrow> (exn + pyval) \<times> heap \<Rightarrow> bool" where
  "agree_ext o1 o2 =
     (wf_heap (snd o1) \<and> wf_heap (snd o2) \<and>
      (case fst o1 of
         Inl e \<Rightarrow> fst o2 = Inl e
       | Inr v1 \<Rightarrow>
           (case fst o2 of
              Inl e \<Rightarrow> False
            | Inr v2 \<Rightarrow> valid (snd o1) v1 \<and> valid (snd o2) v2 \<and>
                        same_value (snd o1) v1 (snd o2) v2)))"

definition value_determined :: "env \<Rightarrow> routine \<Rightarrow> bool" where
  "value_determined env r =
     (\<forall>args1 args2 kw h1 h2.
        wf_heap h1 \<and> wf_heap h2 \<and> same_args h1 args1 h2 args2 \<longrightarrow>
        agree_ext (extern env r args1 kw h1) (extern env r args2 kw h2))"

definition agree :: "(failure + pyval) \<times> state \<Rightarrow> (failure + pyval) \<times> state \<Rightarrow> bool" where
  "agree o1 o2 =
     (wf_heap (heap (snd o1)) \<and> wf_heap (heap (snd o2)) \<and>
      (case fst o1 of
         Inl f \<Rightarrow> fst o2 = Inl f
       | Inr v1 \<Rightarrow>
           (case fst o2 of
              Inl f \<Rightarrow> False
            | Inr v2 \<Rightarrow> valid (heap (snd o1)) v1 \<and> valid (heap (snd o2)) v2 \<and>
                        same_value (heap (snd o1)) v1 (heap (snd o2)) v2)))"

section \<open>The delegation as the specification words it\<close>

text \<open>
  The specification describes the matrix and polynomial forms of the conversion
  wrappers as pure delegation. These definitions follow its words: one call of the
  constructor on the arguments as given, and for the two-step conversions one call of
  the converter on what the constructor returned.
\<close>

definition spec_ss :: "env \<Rightarrow> pyval \<Rightarrow> pyval \<Rightarrow> pyval \<Rightarrow> pyval \<Rightarrow> pyval comp" where
  "spec_ss env A B C D = invoke env StateSpace [A, B, C, D] []"

definition spec_tf :: "env \<Rightarrow> pyval \<Rightarrow> pyval \<Rightarrow> pyval comp" where
  "spec_tf env num den = invoke env TransferFunction [num, den] []"

definition spec_ss2tf :: "env \<Rightarrow> pyval \<Rightarrow> pyval \<Rightarrow> pyval \<Rightarrow> pyval \<Rightarrow> pyval comp" where
  "spec_ss2tf env A B C D st =
     (case invoke env StateSpace [A, B, C, D] [] st of
        (Inl e, st1) \<Rightarrow> (Inl e, st1)
      | (Inr s, st1) \<Rightarrow> invoke env convertToTransferFunction [s] [] st1)"

definition spec_tf2ss :: "env \<Rightarrow> pyval \<Rightarrow> pyval \<Rightarrow> pyval comp" where
  "spec_tf2ss env num den st =
     (case invoke env TransferFunction [num, den] [] st of
        (Inl e, st1) \<Rightarrow> (Inl e, st1)
      | (Inr t, st1) \<Rightarrow> invoke env convertToStateSpace [t] [] st1)"

section \<open>An example environment\<close>

text \<open>
  A small concrete environment on which the theorems below are exercised: the
  constructors allocate an object, the response routines return fixed tuples, and the
  matrix operations work on one-by-one matrices. \<open>example_state\<close> holds the system
  \<open>A = 2, B = 3, C = 4, D = 5\<close>; \<open>tf_state\<close> holds the transfer function
  \<open>1 / (s + 2)\<close>; \<open>shared_state\<close> holds a system whose attribute \<^verbatim>\<open>A\<close> has been
  set to a function, \<open>lock_state\<close> one whose \<^verbatim>\<open>A\<close> has been set to a lock; \<open>plant_state\<close> holds an object whose class sets
  \<^verbatim>\<open>__iter__ = None\<close>.
\<close>

definition mat1 :: "heap \<Rightarrow> pyval \<Rightarrow> real option" where
  "mat1 h v =
     (case v of
        Ref a \<Rightarrow> (case lookup h a of Some (NdArray [[x]]) \<Rightarrow> Some x | _ \<Rightarrow> None)
      | _ \<Rightarrow> None)"

definition example_extern :: "routine \<Rightarrow> pyval list \<Rightarrow> kwargs \<Rightarrow> heap \<Rightarrow> (exn + pyval) \<times> heap" where
  "example_extern r args kw h =
     (if r = StateSpace \<and> length args = 4 then
        (Inr (Ref (length h)), h @ [StateSpaceObj (args ! 0) (args ! 1) (args ! 2) (args ! 3)])
      else if r = TransferFunction \<and> length args = 2 then
        (Inr (Ref (length h)), h @ [TransferFunctionObj (args ! 0) (args ! 1)])
      else if r = freqplot_margin then
        (Inr (PyTuple [PyFloat 2, PyFloat 45, PyFloat 1, PyFloat 3, PyFloat 5]), h)
      else if r = StepResponse then (Inr (PyTuple [PyInt 0, PyInt 1]), h)
      else if r = ImpulseResponse then (Inr (PyTuple [PyInt 0, PyInt 2]), h)
      else if r = InitialResponse then (Inr (PyTuple [PyInt 0, PyInt 3]), h)
      else if r = ForcedResponse then (Inr (PyTuple [PyInt 0, PyInt 4, PyInt 5]), h)
      else if r = freqplot_bode then (Inr PyNone, h)
      else if r = op_getattr ''I'' \<and> length args = 1 then
        (case mat1 h (args ! 0) of
           Some x \<Rightarrow> (if x = 0 then (Inl (OtherError ''LinAlgError''), h)
                      else (Inr (Ref (length h)), h @ [NdArray [[1 / x]]]))
         | None \<Rightarrow> (Inl AttributeError, h))
      else if r = op_mul \<and> length args = 2 then
        (case (mat1 h (args ! 0), mat1 h (args ! 1)) of
           (Some x, Some y) \<Rightarrow> (Inr (Ref (length h)), h @ [NdArray [[x * y]]])
         | _ \<Rightarrow> (Inl TypeError, h))
      else if r = op_sub \<and> length args = 2 then
        (case (mat1 h (args ! 0), mat1 h (args ! 1)) of
           (Some x, Some y) \<Rightarrow> (Inr (Ref (length h)), h @ [NdArray [[x - y]]])
         | _ \<Rightarrow> (Inl TypeError, h))
      else (Inl (OtherError ''unavailable''), h))"

definition example_env :: env where
  "example_env =
     \<lparr>extern = example_extern,
      issys = (\<lambda>h v. is_StateSpace h v \<or> is_TransferFunction h v)\<rparr>"

definition example_state :: state where
  "example_state =
     \<lparr>heap = [NdArray [[2]], NdArray [[3]], NdArray [[4]], NdArray [[5]],
              StateSpaceObj (Ref 0) (Ref 1) (Ref 2) (Ref 3)],
      calls = [], stdout = []\<rparr>"

definition tf_state :: state where
  "tf_state =
     \<lparr>heap = [ListObj [PyFloat 1], ListObj [PyFloat 1, PyFloat 2],
              TransferFunctionObj (Ref 0) (Ref 1)],
      calls = [], stdout = []\<rparr>"

definition shared_state :: state where
  "shared_state =
     \<lparr>heap = [AtomicObj ''gain'' [(''tag'', PyInt 0)], NdArray [[3]], NdArray [[4]],
              NdArray [[5]], StateSpaceObj (Ref 0) (Ref 1) (Ref 2) (Ref 3)],
      calls = [], stdout = []\<rparr>"

definition lock_state :: state where
  "lock_state =
     \<lparr>heap = [UncopyableObj, NdArray [[3]], NdArray [[4]], NdArray [[5]],
              StateSpaceObj (Ref 0) (Ref 1) (Ref 2) (Ref 3)],
      calls = [], stdout = []\<rparr>"

definition plant_state :: state where
  "plant_state =
     \<lparr>heap = [Instance ''Plant'' [(''__iter__'', PyNone)]], calls = [], stdout = []\<rparr>"

text \<open>
  \<open>later_state\<close> is \<open>example_state\<close> after some further activity: one more object
  in the store, a recorded call, a line of output.
\<close>

definition later_state :: state where
  "later_state =
     \<lparr>heap = heap example_state @ [NdArray [[7]]],
      calls = [(freqplot_bode, [Ref 4], [])], stdout = [''done'']\<rparr>"

section \<open>Basic facts about the operations\<close>

lemma invoke_Inr:
  "extern env r args kw (heap st) = (Inr v, h') \<Longrightarrow>
   invoke env r args kw st = (Inr v, st\<lparr>heap := h', calls := calls st @ [(r, args, kw)]\<rparr>)"
  by (simp add: invoke_def)

lemma invoke_not_Raised: "invoke env r args kw st \<noteq> (Inl (Raised e), st')"
  by (auto simp: invoke_def split: prod.splits sum.splits)

lemma and_then_Raised:
  "and_then m f st = (Inl (Raised e), st') \<Longrightarrow>
     m st = (Inl (Raised e), st') \<or>
     (\<exists>x st1. m st = (Inr x, st1) \<and> f x st1 = (Inl (Raised e), st'))"
  by (auto simp: and_then_def split: prod.splits sum.splits)

lemma getattr_not_Raised: "getattr env v name st \<noteq> (Inl (Raised e), st')"
  by (auto simp: getattr_def returns_def fail_def invoke_not_Raised
      split: pyval.splits option.splits pyobj.splits)

lemma getitem_not_Raised: "getitem env v i st \<noteq> (Inl (Raised e), st')"
  by (auto simp: getitem_def returns_def fail_def invoke_not_Raised
      split: pyval.splits option.splits pyobj.splits)

lemma iter_items_not_Raised: "iter_items env v st \<noteq> (Inl (Raised e), st')"
  by (auto simp: iter_items_def returns_def fail_def invoke_not_Raised
      dest!: and_then_Raised
      split: pyval.splits option.splits pyobj.splits)

lemma unpack_not_Raised: "unpack env n v st \<noteq> (Inl (Raised e), st')"
  by (auto simp: unpack_def returns_def fail_def iter_items_not_Raised
      dest!: and_then_Raised split: if_splits)

lemma unpack_tuple:
  "unpack env n (PyTuple xs) st =
     (if length xs = n then (Inr xs, st) else (Inl (Propagated ValueError), st))"
  by (simp add: unpack_def iter_items_def and_then_def returns_def fail_def)

lemma deepcopy_not_Raised: "deepcopy v st \<noteq> (Inl (Raised e), st')"
  by (auto simp: deepcopy_def fail_def split: prod.splits option.splits)

section \<open>Arity dispatch\<close>

text \<open>
  Claim C1. A call whose number of positional arguments is not among the accepted
  counts raises \<^verbatim>\<open>ValueError\<close> and invokes no delegated routine: \<open>ss\<close> and \<open>ss2tf\<close>
  accept 1 or 4 arguments, \<open>tf\<close> and \<open>tf2ss\<close> 1 or 2, \<open>margin\<close> 1 or 3, \<open>dcgain\<close> 1 to 4.
  The state after the call is the state before it: the record of invocations, the
  store and the output are untouched.
\<close>

theorem arity_mismatch_raises_ValueError:
  "(length args \<noteq> 1 \<and> length args \<noteq> 4 \<longrightarrow>
      ss env args st = (Inl (Raised ValueError), st) \<and>
      ss2tf env args st = (Inl (Raised ValueError), st))
   \<and> (length args \<noteq> 1 \<and> length args \<noteq> 2 \<longrightarrow>
      tf env args st = (Inl (Raised ValueError), st) \<and>
      tf2ss env args st = (Inl (Raised ValueError), st))
   \<and> (length args \<noteq> 1 \<and> length args \<noteq> 3 \<longrightarrow>
      margin env args st = (Inl (Raised ValueError), st))
   \<and> (length args \<noteq> 1 \<and> length args \<noteq> 2 \<and> length args \<noteq> 3 \<and> length args \<noteq> 4 \<longrightarrow>
      dcgain env args st = (Inl (Raised ValueError), st))"
  by (simp add: ss_def ss2tf_def tf_def tf2ss_def margin_def dcgain_def raise_def and_then_def)

theorem arity_mismatch_raises_ValueError_witness:
  "length [PyInt 1, PyInt 2, PyInt 3, PyInt 4, PyInt 5] = 5
   \<and> ss example_env [PyInt 1, PyInt 2, PyInt 3, PyInt 4, PyInt 5] example_state
       = (Inl (Raised ValueError), example_state)
   \<and> ss2tf example_env [PyInt 1, PyInt 2, PyInt 3, PyInt 4, PyInt 5] example_state
       = (Inl (Raised ValueError), example_state)
   \<and> tf example_env [PyInt 1, PyInt 2, PyInt 3, PyInt 4, PyInt 5] example_state
       = (Inl (Raised ValueError), example_state)
   \<and> tf2ss example_env [PyInt 1, PyInt 2, PyInt 3, PyInt 4, PyInt 5] example_state
       = (Inl (Raised ValueError), example_state)
   \<and> margin example_env [PyInt 1, PyInt 2, PyInt 3, PyInt 4, PyInt 5] example_state
       = (Inl (Raised ValueError), example_state)
   \<and> dcgain example_env [PyInt 1, PyInt 2, PyInt 3, PyInt 4, PyInt 5] example_state
       = (Inl (Raised ValueError), example_state)"
  using arity_mismatch_raises_ValueError
    [of "[PyInt 1, PyInt 2, PyInt 3, PyInt 4, PyInt 5]" example_env example_state]
  by simp

section \<open>Exceptions of the wrappers' own validation\<close>

lemma ss2tf_Raised:
  "ss2tf env args st = (Inl (Raised e), st') \<Longrightarrow> st' = st \<and> (e = ValueError \<or> e = TypeError)"
  by (auto simp: ss2tf_def raise_def Let_def invoke_not_Raised
      dest!: and_then_Raised split: if_splits)

lemma tf2ss_Raised:
  "tf2ss env args st = (Inl (Raised e), st') \<Longrightarrow> st' = st \<and> (e = ValueError \<or> e = TypeError)"
  by (auto simp: tf2ss_def raise_def Let_def invoke_not_Raised
      dest!: and_then_Raised split: if_splits)

lemma ss_Raised:
  "ss env args st = (Inl (Raised e), st') \<Longrightarrow> st' = st \<and> (e = ValueError \<or> e = TypeError)"
  by (auto simp: ss_def raise_def Let_def invoke_not_Raised deepcopy_not_Raised
      dest!: tf2ss_Raised split: if_splits)

lemma tf_Raised:
  "tf env args st = (Inl (Raised e), st') \<Longrightarrow> st' = st \<and> (e = ValueError \<or> e = TypeError)"
  by (auto simp: tf_def raise_def Let_def invoke_not_Raised deepcopy_not_Raised
      dest!: ss2tf_Raised split: if_splits)

lemma margin_Raised:
  "margin env args st = (Inl (Raised e), st') \<Longrightarrow> st' = st \<and> e = ValueError"
  by (auto simp: margin_def raise_def Let_def returns_def invoke_not_Raised getitem_not_Raised
      dest!: and_then_Raised split: if_splits)

lemma ss4_not_Raised: "ss env [a, b, c, d] st \<noteq> (Inl (Raised e), st')"
  by (simp add: ss_def invoke_not_Raised)

lemma tf2ss2_not_Raised: "tf2ss env [a, b] st \<noteq> (Inl (Raised e), st')"
  by (auto simp: tf2ss_def invoke_not_Raised dest!: and_then_Raised)

lemma dcgain_Raised:
  assumes "dcgain env args st = (Inl (Raised e), st')"
  shows "st' = st \<and> (e = ValueError \<or> e = TypeError)"
proof -
  let ?conv = "(if length args = 4 then ss env [args ! 0, args ! 1, args ! 2, args ! 3]
        else if length args = 3 then
          and_then (invoke env zpk2ss [args ! 0, args ! 1, args ! 2] [])
            (\<lambda>r. and_then (unpack env 4 r)
               (\<lambda>m. ss env [m ! 0, m ! 1, m ! 2, m ! 3]))
        else if length args = 2 then tf2ss env [args ! 0, args ! 1]
        else if length args = 1 then ss env [args ! 0]
        else raise ValueError)"
  let ?gain = "\<lambda>sys.
          and_then (getattr env sys ''D'') (\<lambda>d.
          and_then (getattr env sys ''C'') (\<lambda>c.
          and_then (getattr env sys ''A'') (\<lambda>a.
          and_then (getattr env a ''I'') (\<lambda>ai.
          and_then (invoke env op_mul [c, ai] []) (\<lambda>cai.
          and_then (getattr env sys ''B'') (\<lambda>b.
          and_then (invoke env op_mul [cai, b] []) (\<lambda>caib.
          invoke env op_sub [d, caib] [])))))))"
  from assms have "and_then ?conv ?gain st = (Inl (Raised e), st')"
    by (simp add: dcgain_def)
  then have "?conv st = (Inl (Raised e), st')
      \<or> (\<exists>sys st1. ?conv st = (Inr sys, st1) \<and> ?gain sys st1 = (Inl (Raised e), st'))"
    by (rule and_then_Raised)
  then show ?thesis
  proof
    assume c: "?conv st = (Inl (Raised e), st')"
    show ?thesis
    proof (cases "length args = 4 \<or> length args = 2")
      case True
      with c show ?thesis
        by (auto simp: ss4_not_Raised tf2ss2_not_Raised split: if_splits)
    next
      case False
      show ?thesis
      proof (cases "length args = 3")
        case True
        with c show ?thesis
          by (auto simp: invoke_not_Raised unpack_not_Raised ss4_not_Raised
              dest!: and_then_Raised)
      next
        case n3: False
        with False c show ?thesis
          by (auto simp: raise_def dest!: ss_Raised split: if_splits)
      qed
    qed
  next
    assume "\<exists>sys st1. ?conv st = (Inr sys, st1) \<and> ?gain sys st1 = (Inl (Raised e), st')"
    then show ?thesis
      by (auto simp: invoke_not_Raised getattr_not_Raised dest!: and_then_Raised)
  qed
qed

lemma bode_loop_Inl:
  "bode_loop env h args i syslist plotstyle = Inl f \<Longrightarrow> f = Raised ControlArgument"
proof (induction env h args i syslist plotstyle rule: bode_loop.induct)
  case (1 env h args i syslist plotstyle)
  note eq = bode_loop.simps [of env h args i syslist plotstyle]
  show ?case
  proof (cases "i < length args \<and> issys env h (args ! i)")
    case sys: True
    show ?thesis
    proof (cases "i + 1 < length args \<and> is_str (args ! (i + 1))")
      case True
      with sys "1.prems" eq
      have "bode_loop env h args (i + 2) (syslist @ [args ! i]) (plotstyle @ [args ! (i + 1)]) = Inl f"
        by simp
      with sys True show ?thesis
        using "1.IH"(1) by blast
    next
      case False
      with sys "1.prems" eq
      have "bode_loop env h args (i + 1) (syslist @ [args ! i]) plotstyle = Inl f"
        by auto
      with sys False show ?thesis
        using "1.IH"(2) by blast
    qed
  next
    case False
    with "1.prems" eq show ?thesis
      by (auto split: if_splits)
  qed
qed

lemma bode_Raised:
  "bode env args kw st = (Inl (Raised e), st') \<Longrightarrow> st' = st \<and> e = ControlArgument"
  by (auto simp: bode_def raise_def fail_def Let_def invoke_not_Raised
      split: if_splits sum.splits bool.splits prod.splits dest: bode_loop_Inl)

lemma call_kw_not_Raised: "call_kw env r args key v keywords st \<noteq> (Inl (Raised e), st')"
  by (simp add: call_kw_def fail_def invoke_not_Raised)

text \<open>
  Claim C2, as stated: whenever a wrapper of the module rejects its argument list by
  its own validation, the exception is a \<^verbatim>\<open>ValueError\<close> or a \<^verbatim>\<open>TypeError\<close>. It fails
  for \<open>bode\<close>: the call \<^verbatim>\<open>bode(5)\<close> is rejected by the \<^verbatim>\<open>raise\<close> statement for an
  unrecognized argument type, before anything is delegated, and the exception is a
  \<^verbatim>\<open>ControlArgument\<close>.
\<close>

theorem bode_rejects_with_ControlArgument:
  "bode example_env [PyInt 5] [] example_state = (Inl (Raised ControlArgument), example_state)
   \<and> ControlArgument \<noteq> ValueError \<and> ControlArgument \<noteq> TypeError"
  by (simp add: bode_def getattr_iter_def truthy_def bode_loop.simps example_env_def
      is_StateSpace_def is_TransferFunction_def is_list_or_ndarray_def)

text \<open>
  Claim C2, amended. An exception that comes from a \<^verbatim>\<open>raise\<close> statement of \<open>ss\<close>,
  \<open>tf\<close>, \<open>ss2tf\<close>, \<open>tf2ss\<close>, \<open>margin\<close> or \<open>dcgain\<close> is a \<^verbatim>\<open>ValueError\<close> or a
  \<^verbatim>\<open>TypeError\<close>; one that comes from a \<^verbatim>\<open>raise\<close> statement of \<open>bode\<close> is a
  \<^verbatim>\<open>ControlArgument\<close>. In every case the rejection happens before anything is
  delegated: the state is the one the call started in.
\<close>

theorem own_validation_exceptions:
  "(ss env args st = (Inl (Raised e), st') \<longrightarrow> st' = st \<and> (e = ValueError \<or> e = TypeError))
   \<and> (tf env args st = (Inl (Raised e), st') \<longrightarrow> st' = st \<and> (e = ValueError \<or> e = TypeError))
   \<and> (ss2tf env args st = (Inl (Raised e), st') \<longrightarrow> st' = st \<and> (e = ValueError \<or> e = TypeError))
   \<and> (tf2ss env args st = (Inl (Raised e), st') \<longrightarrow> st' = st \<and> (e = ValueError \<or> e = TypeError))
   \<and> (margin env args st = (Inl (Raised e), st') \<longrightarrow> st' = st \<and> (e = ValueError \<or> e = TypeError))
   \<and> (dcgain env args st = (Inl (Raised e), st') \<longrightarrow> st' = st \<and> (e = ValueError \<or> e = TypeError))
   \<and> (bode env args keywords st = (Inl (Raised e), st') \<longrightarrow> st' = st \<and> e = ControlArgument)"
  using ss_Raised [of env args st e st'] tf_Raised [of env args st e st']
    ss2tf_Raised [of env args st e st'] tf2ss_Raised [of env args st e st']
    margin_Raised [of env args st e st'] dcgain_Raised [of env args st e st']
    bode_Raised [of env args "keywords" st e st']
  by blast

theorem own_validation_exceptions_witness:
  "ss example_env [PyInt 5] example_state = (Inl (Raised TypeError), example_state)
   \<and> tf example_env [PyInt 5] example_state = (Inl (Raised TypeError), example_state)
   \<and> ss2tf example_env [PyInt 5] example_state = (Inl (Raised TypeError), example_state)
   \<and> tf2ss example_env [PyInt 5] example_state = (Inl (Raised TypeError), example_state)
   \<and> dcgain example_env [PyInt 5] example_state = (Inl (Raised TypeError), example_state)
   \<and> margin example_env [] example_state = (Inl (Raised ValueError), example_state)
   \<and> bode example_env [PyInt 5, PyStr ''r'', PyInt 5] [] example_state
       = (Inl (Raised ControlArgument), example_state)
   \<and> (TypeError = ValueError \<or> TypeError = TypeError)
   \<and> (ValueError = ValueError \<or> ValueError = TypeError)"
  using own_validation_exceptions
      [of example_env "[PyInt 5]" example_state TypeError example_state "[]"]
    own_validation_exceptions
      [of example_env "[]" example_state ValueError example_state "[]"]
    own_validation_exceptions
      [of example_env "[PyInt 5, PyStr ''r'', PyInt 5]" example_state ControlArgument
        example_state "[]"]
  by (simp add: ss_def tf_def ss2tf_def tf2ss_def dcgain_def margin_def bode_def raise_def
      and_then_def is_StateSpace_def is_TransferFunction_def getattr_iter_def truthy_def
      bode_loop.simps example_env_def is_list_or_ndarray_def)

section \<open>Type checks of the single-argument forms\<close>

text \<open>
  Claim C3. With one argument the conversion wrappers check its type and raise
  \<^verbatim>\<open>TypeError\<close> on a mismatch: \<open>ss\<close> and \<open>tf\<close> when it is neither a \<^verbatim>\<open>StateSpace\<close>
  nor a \<^verbatim>\<open>TransferFunction\<close>, \<open>ss2tf\<close> when it is not a \<^verbatim>\<open>StateSpace\<close>, \<open>tf2ss\<close> when
  it is not a \<^verbatim>\<open>TransferFunction\<close>.
\<close>

theorem single_argument_type_check:
  "(\<not> is_StateSpace (heap st) sys \<and> \<not> is_TransferFunction (heap st) sys \<longrightarrow>
      ss env [sys] st = (Inl (Raised TypeError), st) \<and>
      tf env [sys] st = (Inl (Raised TypeError), st))
   \<and> (\<not> is_StateSpace (heap st) sys \<longrightarrow> ss2tf env [sys] st = (Inl (Raised TypeError), st))
   \<and> (\<not> is_TransferFunction (heap st) sys \<longrightarrow>
      tf2ss env [sys] st = (Inl (Raised TypeError), st))"
  by (simp add: ss_def tf_def ss2tf_def tf2ss_def raise_def)

theorem single_argument_type_check_witness:
  "\<not> is_StateSpace (heap example_state) (Ref 0)
   \<and> \<not> is_TransferFunction (heap example_state) (Ref 0)
   \<and> ss example_env [Ref 0] example_state = (Inl (Raised TypeError), example_state)
   \<and> tf example_env [Ref 0] example_state = (Inl (Raised TypeError), example_state)
   \<and> ss2tf example_env [Ref 0] example_state = (Inl (Raised TypeError), example_state)
   \<and> tf2ss example_env [Ref 0] example_state = (Inl (Raised TypeError), example_state)"
  using single_argument_type_check [of example_state "Ref 0" example_env]
  by (simp add: is_StateSpace_def is_TransferFunction_def lookup_def example_state_def)

section \<open>Delegation of the matrix and polynomial forms\<close>

text \<open>
  Claim C4. \<open>ss(A, B, C, D)\<close> is \<open>StateSpace(A, B, C, D)\<close>, \<open>tf(num, den)\<close> is
  \<open>TransferFunction(num, den)\<close>, \<open>ss2tf(A, B, C, D)\<close> is the converter applied to
  \<open>StateSpace(A, B, C, D)\<close>, and \<open>tf2ss(num, den)\<close> is the converter applied to
  \<open>TransferFunction(num, den)\<close>: the wrappers add nothing to the result, to the
  effects on the store, or to the calls made.
\<close>

theorem matrix_forms_delegate:
  "ss env [A, B, C, D] = spec_ss env A B C D
   \<and> tf env [num, den] = spec_tf env num den
   \<and> ss2tf env [A, B, C, D] = spec_ss2tf env A B C D
   \<and> tf2ss env [num, den] = spec_tf2ss env num den"
  by (auto simp: fun_eq_iff ss_def tf_def ss2tf_def tf2ss_def spec_ss_def spec_tf_def
      spec_ss2tf_def spec_tf2ss_def and_then_def)

section \<open>Simulation wrappers\<close>

text \<open>
  Claim C5, as stated: every call of \<open>step\<close>, \<open>impulse\<close>, \<open>initial\<close> or \<open>lsim\<close>
  invokes its counterpart with \<^verbatim>\<open>transpose=True\<close>. It fails for a call that passes
  \<^verbatim>\<open>transpose\<close> itself: \<^verbatim>\<open>step(sys, transpose=False)\<close> gives the key twice in the call
  of \<^verbatim>\<open>StepResponse\<close>, the interpreter raises \<^verbatim>\<open>TypeError\<close>, and the counterpart is never
  entered (no invocation is recorded).
\<close>

theorem step_transpose_keyword_clash:
  "step example_env (Ref 4) None None None None [(''transpose'', PyBool False)] example_state
     = (Inl (Propagated TypeError), example_state)
   \<and> calls example_state = []"
  by (simp add: step_def call_kw_def and_then_def fail_def example_state_def)

lemma invoke_calls:
  "calls (snd (invoke env r args kw st)) = calls st @ [(r, args, kw)]"
  by (simp add: invoke_def split: prod.splits)

lemma unpack_calls: "\<exists>cs. calls (snd (unpack env n v st)) = calls st @ cs"
proof -
  have it: "\<exists>cs. calls (snd (iter_items env v st)) = calls st @ cs"
    by (auto simp: iter_items_def returns_def fail_def and_then_def invoke_def
        split: pyval.splits option.splits pyobj.splits prod.splits sum.splits)
  then show ?thesis
    by (auto simp: unpack_def and_then_def returns_def fail_def split: prod.splits sum.splits)
qed

lemma delegate_then_unpack_calls:
  assumes "key \<notin> set (map fst kw)"
  shows "\<exists>cs. calls (snd (and_then (call_kw env r args key v kw)
            (\<lambda>res. and_then (unpack env n res) (\<lambda>xs. returns (g xs))) st))
          = calls st @ (r, args, (key, v) # kw) # cs"
proof (cases "invoke env r args ((key, v) # kw) st")
  case (Pair res st1)
  from invoke_calls [of env r args "(key, v) # kw" st] Pair
  have c1: "calls st1 = calls st @ [(r, args, (key, v) # kw)]" by simp
  show ?thesis
  proof (cases res)
    case (Inl f)
    with Pair assms c1 show ?thesis by (simp add: and_then_def call_kw_def)
  next
    case (Inr x)
    from unpack_calls [of env n x st1] obtain cs where
      cs: "calls (snd (unpack env n x st1)) = calls st1 @ cs" by blast
    have "calls (snd (and_then (unpack env n x) (\<lambda>xs. returns (g xs)) st1)) = calls st1 @ cs"
      using cs by (auto simp: and_then_def returns_def split: prod.splits sum.splits)
    with Pair Inr assms c1 show ?thesis by (simp add: and_then_def call_kw_def)
  qed
qed

text \<open>
  Claim C5, amended. For every call whose extra keyword arguments do not contain
  \<^verbatim>\<open>transpose\<close>, the wrapper invokes its counterpart, with \<^verbatim>\<open>transpose=True\<close> put
  before the caller's keywords (and with the defaults \<open>None\<close>, \<open>0.\<close>, \<open>0\<close> for the
  parameters left out): this invocation is the first one the call records. When the
  counterpart returns the pair \<open>(T, yout)\<close>, or for \<open>lsim\<close> the triple
  \<open>(T, yout, xout)\<close>, the wrapper returns these components unchanged and invokes
  nothing else.
\<close>

theorem simulation_wrappers_delegate:
  "''transpose'' \<notin> fst ` set kw \<longrightarrow>
   (\<exists>cs. calls (snd (step env sys T X0 inp outp kw st)) = calls st @
      (StepResponse,
       [sys, dflt PyNone T, dflt (PyFloat 0) X0, dflt (PyInt 0) inp, dflt (PyInt 0) outp],
       (''transpose'', PyBool True) # kw) # cs)
   \<and> (\<exists>cs. calls (snd (impulse env sys T X0 inp outp kw st)) = calls st @
      (ImpulseResponse,
       [sys, dflt PyNone T, dflt (PyFloat 0) X0, dflt (PyInt 0) inp, dflt (PyInt 0) outp],
       (''transpose'', PyBool True) # kw) # cs)
   \<and> (\<exists>cs. calls (snd (initial env sys T X0 inp outp kw st)) = calls st @
      (InitialResponse,
       [sys, dflt PyNone T, dflt (PyFloat 0) X0, dflt (PyInt 0) inp, dflt (PyInt 0) outp],
       (''transpose'', PyBool True) # kw) # cs)
   \<and> (\<exists>cs. calls (snd (lsim env sys U T X0 kw st)) = calls st @
      (ForcedResponse, [sys, dflt PyNone T, dflt (PyFloat 0) U, dflt (PyFloat 0) X0],
       (''transpose'', PyBool True) # kw) # cs)
   \<and> (extern env StepResponse
      [sys, dflt PyNone T, dflt (PyFloat 0) X0, dflt (PyInt 0) inp, dflt (PyInt 0) outp]
      ((''transpose'', PyBool True) # kw) (heap st) = (Inr (PyTuple [t, y]), h') \<longrightarrow>
    step env sys T X0 inp outp kw st =
      (Inr (PyTuple [t, y]),
       st\<lparr>heap := h', calls := calls st @
         [(StepResponse,
           [sys, dflt PyNone T, dflt (PyFloat 0) X0, dflt (PyInt 0) inp, dflt (PyInt 0) outp],
           (''transpose'', PyBool True) # kw)]\<rparr>))
   \<and> (extern env ImpulseResponse
      [sys, dflt PyNone T, dflt (PyFloat 0) X0, dflt (PyInt 0) inp, dflt (PyInt 0) outp]
      ((''transpose'', PyBool True) # kw) (heap st) = (Inr (PyTuple [t, y]), h') \<longrightarrow>
    impulse env sys T X0 inp outp kw st =
      (Inr (PyTuple [t, y]),
       st\<lparr>heap := h', calls := calls st @
         [(ImpulseResponse,
           [sys, dflt PyNone T, dflt (PyFloat 0) X0, dflt (PyInt 0) inp, dflt (PyInt 0) outp],
           (''transpose'', PyBool True) # kw)]\<rparr>))
   \<and> (extern env InitialResponse
      [sys, dflt PyNone T, dflt (PyFloat 0) X0, dflt (PyInt 0) inp, dflt (PyInt 0) outp]
      ((''transpose'', PyBool True) # kw) (heap st) = (Inr (PyTuple [t, y]), h') \<longrightarrow>
    initial env sys T X0 inp outp kw st =
      (Inr (PyTuple [t, y]),
       st\<lparr>heap := h', calls := calls st @
         [(InitialResponse,
           [sys, dflt PyNone T, dflt (PyFloat 0) X0, dflt (PyInt 0) inp, dflt (PyInt 0) outp],
           (''transpose'', PyBool True) # kw)]\<rparr>))
   \<and> (extern env ForcedResponse [sys, dflt PyNone T, dflt (PyFloat 0) U, dflt (PyFloat 0) X0]
      ((''transpose'', PyBool True) # kw) (heap st) = (Inr (PyTuple [t, y, x]), h') \<longrightarrow>
    lsim env sys U T X0 kw st =
      (Inr (PyTuple [t, y, x]),
       st\<lparr>heap := h', calls := calls st @
         [(ForcedResponse, [sys, dflt PyNone T, dflt (PyFloat 0) U, dflt (PyFloat 0) X0],
           (''transpose'', PyBool True) # kw)]\<rparr>))"
proof (intro impI conjI)
  assume "''transpose'' \<notin> fst ` set kw"
  then have k: "''transpose'' \<notin> set (map fst kw)" by simp
  note c = delegate_then_unpack_calls [OF k, of env _ _ "PyBool True" _ _ st]
  show "\<exists>cs. calls (snd (step env sys T X0 inp outp kw st)) = calls st @
      (StepResponse,
       [sys, dflt PyNone T, dflt (PyFloat 0) X0, dflt (PyInt 0) inp, dflt (PyInt 0) outp],
       (''transpose'', PyBool True) # kw) # cs"
    unfolding step_def by (rule c)
  show "\<exists>cs. calls (snd (impulse env sys T X0 inp outp kw st)) = calls st @
      (ImpulseResponse,
       [sys, dflt PyNone T, dflt (PyFloat 0) X0, dflt (PyInt 0) inp, dflt (PyInt 0) outp],
       (''transpose'', PyBool True) # kw) # cs"
    unfolding impulse_def by (rule c)
  show "\<exists>cs. calls (snd (initial env sys T X0 inp outp kw st)) = calls st @
      (InitialResponse,
       [sys, dflt PyNone T, dflt (PyFloat 0) X0, dflt (PyInt 0) inp, dflt (PyInt 0) outp],
       (''transpose'', PyBool True) # kw) # cs"
    unfolding initial_def by (rule c)
  show "\<exists>cs. calls (snd (lsim env sys U T X0 kw st)) = calls st @
      (ForcedResponse, [sys, dflt PyNone T, dflt (PyFloat 0) U, dflt (PyFloat 0) X0],
       (''transpose'', PyBool True) # kw) # cs"
    unfolding lsim_def by (rule c)
  show "step env sys T X0 inp outp kw st =
      (Inr (PyTuple [t, y]),
       st\<lparr>heap := h', calls := calls st @
         [(StepResponse,
           [sys, dflt PyNone T, dflt (PyFloat 0) X0, dflt (PyInt 0) inp, dflt (PyInt 0) outp],
           (''transpose'', PyBool True) # kw)]\<rparr>)"
    if "extern env StepResponse
      [sys, dflt PyNone T, dflt (PyFloat 0) X0, dflt (PyInt 0) inp, dflt (PyInt 0) outp]
      ((''transpose'', PyBool True) # kw) (heap st) = (Inr (PyTuple [t, y]), h')"
    using that k
    by (simp add: step_def call_kw_def and_then_def invoke_Inr unpack_tuple returns_def)
  show "impulse env sys T X0 inp outp kw st =
      (Inr (PyTuple [t, y]),
       st\<lparr>heap := h', calls := calls st @
         [(ImpulseResponse,
           [sys, dflt PyNone T, dflt (PyFloat 0) X0, dflt (PyInt 0) inp, dflt (PyInt 0) outp],
           (''transpose'', PyBool True) # kw)]\<rparr>)"
    if "extern env ImpulseResponse
      [sys, dflt PyNone T, dflt (PyFloat 0) X0, dflt (PyInt 0) inp, dflt (PyInt 0) outp]
      ((''transpose'', PyBool True) # kw) (heap st) = (Inr (PyTuple [t, y]), h')"
    using that k
    by (simp add: impulse_def call_kw_def and_then_def invoke_Inr unpack_tuple returns_def)
  show "initial env sys T X0 inp outp kw st =
      (Inr (PyTuple [t, y]),
       st\<lparr>heap := h', calls := calls st @
         [(InitialResponse,
           [sys, dflt PyNone T, dflt (PyFloat 0) X0, dflt (PyInt 0) inp, dflt (PyInt 0) outp],
           (''transpose'', PyBool True) # kw)]\<rparr>)"
    if "extern env InitialResponse
      [sys, dflt PyNone T, dflt (PyFloat 0) X0, dflt (PyInt 0) inp, dflt (PyInt 0) outp]
      ((''transpose'', PyBool True) # kw) (heap st) = (Inr (PyTuple [t, y]), h')"
    using that k
    by (simp add: initial_def call_kw_def and_then_def invoke_Inr unpack_tuple returns_def)
  show "lsim env sys U T X0 kw st =
      (Inr (PyTuple [t, y, x]),
       st\<lparr>heap := h', calls := calls st @
         [(ForcedResponse, [sys, dflt PyNone T, dflt (PyFloat 0) U, dflt (PyFloat 0) X0],
           (''transpose'', PyBool True) # kw)]\<rparr>)"
    if "extern env ForcedResponse [sys, dflt PyNone T, dflt (PyFloat 0) U, dflt (PyFloat 0) X0]
      ((''transpose'', PyBool True) # kw) (heap st) = (Inr (PyTuple [t, y, x]), h')"
    using that k
    by (simp add: lsim_def call_kw_def and_then_def invoke_Inr unpack_tuple returns_def)
qed

theorem simulation_wrappers_delegate_witness:
  "step example_env (Ref 4) None None None None [] example_state =
     (Inr (PyTuple [PyInt 0, PyInt 1]),
      example_state\<lparr>calls := [(StepResponse, [Ref 4, PyNone, PyFloat 0, PyInt 0, PyInt 0],
        [(''transpose'', PyBool True)])]\<rparr>)
   \<and> impulse example_env (Ref 4) None None None None [] example_state =
     (Inr (PyTuple [PyInt 0, PyInt 2]),
      example_state\<lparr>calls := [(ImpulseResponse, [Ref 4, PyNone, PyFloat 0, PyInt 0, PyInt 0],
        [(''transpose'', PyBool True)])]\<rparr>)
   \<and> initial example_env (Ref 4) None (Some (Ref 0)) None None [] example_state =
     (Inr (PyTuple [PyInt 0, PyInt 3]),
      example_state\<lparr>calls := [(InitialResponse, [Ref 4, PyNone, Ref 0, PyInt 0, PyInt 0],
        [(''transpose'', PyBool True)])]\<rparr>)
   \<and> lsim example_env (Ref 4) None None None [] example_state =
     (Inr (PyTuple [PyInt 0, PyInt 4, PyInt 5]),
      example_state\<lparr>calls := [(ForcedResponse, [Ref 4, PyNone, PyFloat 0, PyFloat 0],
        [(''transpose'', PyBool True)])]\<rparr>)"
  using simulation_wrappers_delegate
      [where kw = "[]" and env = example_env and sys = "Ref 4" and T = None and ?X0.0 = None
        and inp = None and outp = None and st = example_state and t = "PyInt 0"
        and y = "PyInt 1" and h' = "heap example_state"]
    simulation_wrappers_delegate
      [where kw = "[]" and env = example_env and sys = "Ref 4" and T = None and ?X0.0 = None
        and inp = None and outp = None and st = example_state and t = "PyInt 0"
        and y = "PyInt 2" and h' = "heap example_state"]
    simulation_wrappers_delegate
      [where kw = "[]" and env = example_env and sys = "Ref 4" and T = None
        and ?X0.0 = "Some (Ref 0)"
        and inp = None and outp = None and st = example_state and t = "PyInt 0"
        and y = "PyInt 3" and h' = "heap example_state"]
    simulation_wrappers_delegate
      [where kw = "[]" and env = example_env and sys = "Ref 4" and T = None and ?X0.0 = None
        and U = None and st = example_state and t = "PyInt 0"
        and y = "PyInt 4" and x = "PyInt 5" and h' = "heap example_state"]
  by (simp add: example_env_def example_extern_def dflt_def example_state_def)

section \<open>Stability margins\<close>

text \<open>
  Claim C6. For a call with one or three arguments, \<open>margin\<close> hands the system (or
  the tuple of the three arguments) to \<^verbatim>\<open>freqplot.margin\<close> and returns the 4-tuple made
  of elements 0, 1, 3 and 4 of the tuple that comes back; element 2 is dropped.
\<close>

theorem margin_selects_0_1_3_4:
  "(length args = 1 \<or> length args = 3) \<and>
   extern env freqplot_margin [if length args = 1 then args ! 0 else PyTuple args] [] (heap st)
     = (Inr (PyTuple ms), h') \<and> 5 \<le> length ms \<longrightarrow>
   margin env args st =
     (Inr (PyTuple [ms ! 0, ms ! 1, ms ! 3, ms ! 4]),
      st\<lparr>heap := h', calls := calls st @
        [(freqplot_margin, [if length args = 1 then args ! 0 else PyTuple args], [])]\<rparr>)"
  by (auto simp: margin_def and_then_def invoke_Inr getitem_def returns_def)

theorem margin_selects_0_1_3_4_witness:
  "margin example_env [Ref 4] example_state =
     (Inr (PyTuple [PyFloat 2, PyFloat 45, PyFloat 3, PyFloat 5]),
      example_state\<lparr>calls := [(freqplot_margin, [Ref 4], [])]\<rparr>)
   \<and> margin example_env [Ref 0, Ref 1, Ref 2] example_state =
     (Inr (PyTuple [PyFloat 2, PyFloat 45, PyFloat 3, PyFloat 5]),
      example_state\<lparr>calls := [(freqplot_margin, [PyTuple [Ref 0, Ref 1, Ref 2]], [])]\<rparr>)"
  using margin_selects_0_1_3_4
      [where args = "[Ref 4]" and env = example_env and st = example_state
        and ms = "[PyFloat 2, PyFloat 45, PyFloat 1, PyFloat 3, PyFloat 5]"
        and h' = "heap example_state"]
    margin_selects_0_1_3_4
      [where args = "[Ref 0, Ref 1, Ref 2]" and env = example_env and st = example_state
        and ms = "[PyFloat 2, PyFloat 45, PyFloat 1, PyFloat 3, PyFloat 5]"
        and h' = "heap example_state"]
  by (simp add: example_env_def example_extern_def example_state_def)

section \<open>The python-control calling format of bode\<close>

text \<open>
  Claim C10, as stated: whenever the first positional argument has an \<^verbatim>\<open>__iter__\<close>
  attribute, \<open>bode\<close> skips the MATLAB-style parsing. The test in the source is on the
  value of the attribute, not on its presence: an object whose class sets
  \<^verbatim>\<open>__iter__ = None\<close> has the attribute, and \<open>bode\<close> parses the call all the same (here
  it rejects the object as an unrecognized argument).
\<close>

theorem bode_parses_falsy_iter_attribute:
  "lookup (heap plant_state) 0 = Some (Instance ''Plant'' [(''__iter__'', PyNone)])
   \<and> map_of [(''__iter__'', PyNone)] ''__iter__'' = Some PyNone
   \<and> bode example_env [Ref 0] [] plant_state = (Inl (Raised ControlArgument), plant_state)"
  by (simp add: bode_def plant_state_def getattr_iter_def truthy_def lookup_def
      bode_loop.simps example_env_def is_StateSpace_def is_TransferFunction_def
      is_list_or_ndarray_def)

text \<open>
  Claim C10, amended. Whenever the \<^verbatim>\<open>__iter__\<close> attribute of the first positional
  argument has a true value (as it has for every list, tuple and array), \<open>bode\<close> does
  no parsing of its own: the call is the call of \<^verbatim>\<open>freqplot.bode\<close> on the same
  positional and keyword arguments.
\<close>

theorem bode_iterable_first_argument:
  "(args \<noteq> [] \<and> truthy (heap st) (getattr_iter (heap st) (args ! 0) (PyBool False)) = Inr True
      \<longrightarrow> bode env args kw st = invoke env freqplot_bode args kw st)
   \<and> (args \<noteq> [] \<and> is_list_or_ndarray (heap st) (args ! 0) \<longrightarrow>
      getattr_iter (heap st) (args ! 0) (PyBool False) = PyMethod \<and>
      bode env args kw st = invoke env freqplot_bode args kw st)"
  by (auto simp: bode_def is_list_or_ndarray_def getattr_iter_def truthy_def
      split: pyval.splits option.splits pyobj.splits)

theorem bode_iterable_first_argument_witness:
  "is_list_or_ndarray (heap tf_state) (Ref 0)
   \<and> truthy (heap tf_state) (getattr_iter (heap tf_state) (Ref 0) (PyBool False)) = Inr True
   \<and> bode example_env [Ref 0, PyStr ''r''] [(''dB'', PyBool True)] tf_state =
      (Inr PyNone,
       tf_state\<lparr>calls := [(freqplot_bode, [Ref 0, PyStr ''r''], [(''dB'', PyBool True)])]\<rparr>)"
  using bode_iterable_first_argument
      [where args = "[Ref 0, PyStr ''r'']" and st = tf_state and env = example_env
        and kw = "[(''dB'', PyBool True)]"]
  by (simp add: is_list_or_ndarray_def getattr_iter_def truthy_def lookup_def tf_state_def
      invoke_def example_env_def example_extern_def)

section \<open>Deep copies\<close>

lemma val_refs_rename: "val_refs (rename_val f v) = map f (val_refs v)"
  by (induction v) (simp_all add: map_concat comp_def cong: map_cong)

lemma obj_refs_rename: "obj_refs (rename_obj f obj) = map f (obj_refs obj)"
  by (cases obj) (simp_all add: val_refs_rename map_concat comp_def)

lemma copy_refs_subset: "set (copy_refs obj) \<subseteq> set (obj_refs obj)"
  by (simp add: copy_refs_def)

lemma copy_refs_plain: "\<not> is_atomic obj \<Longrightarrow> copy_refs obj = obj_refs obj"
  by (simp add: copy_refs_def)

lemma reach_mono: "set vis \<subseteq> set (reach h ws vis)"
proof (induction h ws vis rule: reach.induct)
  case (1 h vis)
  show ?case by (simp add: reach.simps)
next
  case (2 h a ws vis)
  show ?case
  proof (cases "a \<in> set vis \<or> length h \<le> a")
    case True
    with "2.IH"(1) show ?thesis by (simp add: reach.simps)
  next
    case False
    with "2.IH"(2) have "set (vis @ [a]) \<subseteq> set (reach h (copy_refs (h ! a) @ ws) (vis @ [a]))"
      by simp
    with False show ?thesis by (simp add: reach.simps)
  qed
qed

lemma reach_bound:
  "\<forall>a \<in> set vis. a < length h \<Longrightarrow> \<forall>a \<in> set (reach h ws vis). a < length h"
proof (induction h ws vis rule: reach.induct)
  case (1 h vis)
  then show ?case by (simp add: reach.simps)
next
  case (2 h a ws vis)
  show ?case
  proof (cases "a \<in> set vis \<or> length h \<le> a")
    case True
    with "2.IH"(1) "2.prems" show ?thesis by (simp add: reach.simps)
  next
    case False
    with "2.prems" have "\<forall>x \<in> set (vis @ [a]). x < length h" by auto
    with False "2.IH"(2) show ?thesis by (simp add: reach.simps)
  qed
qed

lemma reach_closed:
  "\<forall>v \<in> set vis. \<forall>x \<in> set (copy_refs (h ! v)). x < length h \<longrightarrow> x \<in> set vis \<union> set ws \<Longrightarrow>
   \<forall>v \<in> set (reach h ws vis). \<forall>x \<in> set (copy_refs (h ! v)). x < length h \<longrightarrow> x \<in> set (reach h ws vis)"
proof (induction h ws vis rule: reach.induct)
  case (1 h vis)
  then show ?case by (simp add: reach.simps)
next
  case (2 h a ws vis)
  show ?case
  proof (cases "a \<in> set vis \<or> length h \<le> a")
    case True
    have "\<forall>v \<in> set vis. \<forall>x \<in> set (copy_refs (h ! v)). x < length h \<longrightarrow> x \<in> set vis \<union> set ws"
    proof (intro ballI impI)
      fix v x
      assume v: "v \<in> set vis" and x: "x \<in> set (copy_refs (h ! v))" and lt: "x < length h"
      with "2.prems" have "x \<in> set vis \<union> set (a # ws)" by blast
      with True lt show "x \<in> set vis \<union> set ws" by auto
    qed
    with True "2.IH"(1) show ?thesis by (simp add: reach.simps)
  next
    case False
    have "\<forall>v \<in> set (vis @ [a]). \<forall>x \<in> set (copy_refs (h ! v)).
        x < length h \<longrightarrow> x \<in> set (vis @ [a]) \<union> set (copy_refs (h ! a) @ ws)"
    proof (intro ballI impI)
      fix v x
      assume v: "v \<in> set (vis @ [a])" and x: "x \<in> set (copy_refs (h ! v))" and lt: "x < length h"
      show "x \<in> set (vis @ [a]) \<union> set (copy_refs (h ! a) @ ws)"
      proof (cases "v = a")
        case True
        with x show ?thesis by simp
      next
        case False
        with v have "v \<in> set vis" by simp
        with "2.prems" x lt have "x \<in> set vis \<union> set (a # ws)" by blast
        then show ?thesis by auto
      qed
    qed
    with False "2.IH"(2) show ?thesis by (simp add: reach.simps)
  qed
qed

lemma reach_root: "a < length h \<Longrightarrow> a \<in> set (reach h [a] [])"
proof -
  assume "a < length h"
  then have "reach h [a] [] = reach h (copy_refs (h ! a) @ []) ([] @ [a])"
    by (simp add: reach.simps)
  moreover have "set ([] @ [a]) \<subseteq> set (reach h (copy_refs (h ! a) @ []) ([] @ [a]))"
    by (rule reach_mono)
  ultimately show ?thesis by simp
qed

lemma reach_root_closed:
  assumes wf: "wf_heap h" and a: "a < length h"
  shows "a \<in> set (reach h [a] []) \<and>
     (\<forall>x \<in> set (reach h [a] []). x < length h \<and> set (copy_refs (h ! x)) \<subseteq> set (reach h [a] []))"
proof -
  let ?R = "reach h [a] []"
  have bound: "\<forall>x \<in> set ?R. x < length h"
    using reach_bound [of "[]" h "[a]"] by simp
  have "\<forall>v \<in> set ?R. \<forall>x \<in> set (copy_refs (h ! v)). x < length h \<longrightarrow> x \<in> set ?R"
    by (rule reach_closed) simp
  moreover have "\<forall>v \<in> set ?R. \<forall>x \<in> set (copy_refs (h ! v)). x < length h"
  proof (intro ballI)
    fix v x assume v: "v \<in> set ?R" and x: "x \<in> set (copy_refs (h ! v))"
    from v bound have "h ! v \<in> set h" by simp
    moreover from x have "x \<in> set (obj_refs (h ! v))"
      using copy_refs_subset by blast
    ultimately show "x < length h" using wf by (auto simp: wf_heap_def)
  qed
  ultimately have "\<forall>v \<in> set ?R. set (copy_refs (h ! v)) \<subseteq> set ?R" by blast
  with bound reach_root [OF a] show ?thesis by blast
qed

lemma index_of_Some:
  "x \<in> set R \<Longrightarrow> \<exists>i. index_of R x = Some i \<and> i < length R \<and> R ! i = x"
  by (induction R) auto

lemma index_of_None: "x \<notin> set R \<Longrightarrow> index_of R x = None"
  by (induction R) auto

lemma renaming_id: "x \<notin> set R \<Longrightarrow> renaming n R x = x"
  by (simp add: renaming_def index_of_None)

lemma renaming_fresh: "x \<in> set R \<Longrightarrow> n \<le> renaming n R x"
  by (auto simp: renaming_def dest: index_of_Some)

lemma renaming_lookup:
  assumes "x \<in> set R"
  shows "renaming (length h) R x < length h + length R \<and>
         (h @ map g R) ! (renaming (length h) R x) = g x"
proof -
  from assms obtain i where i: "index_of R x = Some i" "i < length R" "R ! i = x"
    by (auto dest: index_of_Some)
  then show ?thesis
    by (simp add: renaming_def nth_append)
qed

lemma renaming_inj:
  assumes "x \<in> set R" "y \<in> set R" "renaming n R x = renaming n R y"
  shows "x = y"
proof -
  from assms(1) obtain i where i: "index_of R x = Some i" "R ! i = x"
    by (auto dest: index_of_Some)
  from assms(2) obtain j where j: "index_of R y = Some j" "R ! j = y"
    by (auto dest: index_of_Some)
  from assms(3) i(1) j(1) have "i = j" by (simp add: renaming_def)
  with i(2) j(2) show ?thesis by simp
qed

lemma deepcopy_heap_Ref:
  assumes wf: "wf_heap h" and a: "a < length h" and pl: "all_copied h (Ref a)"
  shows "\<exists>b h'. deepcopy_heap h (Ref a) = Some (Ref b, h') \<and> length h \<le> b \<and> b < length h'
     \<and> take (length h) h' = h
     \<and> h' ! b = rename_obj (renaming (length h) (reach h [a] [])) (h ! a)
     \<and> copy_of h a h' b
     \<and> (\<forall>c. reaches h' (Ref b) c \<longrightarrow> length h \<le> c)"
proof -
  let ?R = "reach h [a] []"
  let ?n = "length h"
  let ?f = "renaming ?n ?R"
  let ?h' = "h @ map (\<lambda>x. rename_obj ?f (h ! x)) ?R"
  from pl have allp: "\<forall>x \<in> set ?R. plain (h ! x)"
    by (simp add: all_copied_def list_all_iff)
  from reach_root_closed [OF wf a] have aR: "a \<in> set ?R"
    and cl: "\<forall>v \<in> set ?R. set (copy_refs (h ! v)) \<subseteq> set ?R"
    by blast+
  have closed: "\<forall>v \<in> set ?R. \<forall>x \<in> set (obj_refs (h ! v)). x \<in> set ?R"
  proof (intro ballI)
    fix v x assume v: "v \<in> set ?R" and x: "x \<in> set (obj_refs (h ! v))"
    from allp v have "copy_refs (h ! v) = obj_refs (h ! v)"
      by (simp add: plain_def copy_refs_plain)
    with x have "x \<in> set (copy_refs (h ! v))" by simp
    with cl v show "x \<in> set ?R" by blast
  qed
  have C: "copied h ?R = ?R"
    using allp by (simp add: copied_def plain_def)
  have nl: "\<not> list_ex (\<lambda>x. h ! x = UncopyableObj) ?R"
    using allp by (auto simp: list_ex_iff plain_def)
  have eq: "deepcopy_heap h (Ref a) = Some (Ref (?f a), ?h')"
    using nl by (simp add: deepcopy_heap_def Let_def C)
  have fresh: "?n \<le> ?f a" using aR by (rule renaming_fresh)
  have lk: "x \<in> set ?R \<Longrightarrow> ?f x < ?n + length ?R \<and> ?h' ! (?f x) = rename_obj ?f (h ! x)" for x
    by (rule renaming_lookup)
  have len: "length ?h' = ?n + length ?R" by simp
  have cell: "?n \<le> c \<Longrightarrow> c < length ?h' \<Longrightarrow> \<forall>b \<in> set (obj_refs (?h' ! c)). ?n \<le> b" for c
  proof
    fix b
    assume c: "?n \<le> c" "c < length ?h'" and b: "b \<in> set (obj_refs (?h' ! c))"
    let ?r = "?R ! (c - ?n)"
    from c have i: "c - ?n < length ?R" by simp
    then have rR: "?r \<in> set ?R" by simp
    from c i have "?h' ! c = rename_obj ?f (h ! ?r)"
      by (simp add: nth_append)
    with b have "b \<in> ?f ` set (obj_refs (h ! ?r))"
      by (simp add: obj_refs_rename)
    then obtain x where x: "x \<in> set (obj_refs (h ! ?r))" "b = ?f x" by blast
    from closed rR x(1) have "x \<in> set ?R" by blast
    then have "?n \<le> ?f x" by (rule renaming_fresh)
    with x(2) show "?n \<le> b" by simp
  qed
  have sep: "reaches h0 v c \<Longrightarrow> h0 = ?h' \<Longrightarrow> v = Ref (?f a) \<Longrightarrow> ?n \<le> c" for h0 v c
  proof (induction rule: reaches.induct)
    case (root c v h0)
    with fresh show ?case by simp
  next
    case (field h0 v c b)
    then have "?n \<le> c" "c < length ?h'" "b \<in> set (obj_refs (?h' ! c))" by simp_all
    then show ?case using cell by blast
  qed
  have inR: "reaches h0 v x \<Longrightarrow> h0 = h \<Longrightarrow> v = Ref a \<Longrightarrow> x \<in> set ?R" for h0 v x
  proof (induction rule: reaches.induct)
    case (root x v h0)
    with aR show ?case by simp
  next
    case (field h0 v x y)
    with closed show ?case by blast
  qed
  have copy: "copy_of h a ?h' (?f a)"
    unfolding copy_of_def
  proof (intro exI [of _ ?f] conjI allI impI)
    show "?f a = ?f a" ..
  next
    fix x assume "reaches h (Ref a) x"
    then have "x \<in> set ?R" using inR by blast
    then show "?n \<le> ?f x" by (rule renaming_fresh)
  next
    fix x assume "reaches h (Ref a) x"
    then have "x \<in> set ?R" using inR by blast
    with lk show "?f x < length ?h'" by (simp only: len)
  next
    fix x assume "reaches h (Ref a) x"
    then have "x \<in> set ?R" using inR by blast
    with lk show "?h' ! ?f x = rename_obj ?f (h ! x)" by blast
  next
    fix x y assume "reaches h (Ref a) x \<and> reaches h (Ref a) y \<and> ?f x = ?f y"
    then have "x \<in> set ?R" "y \<in> set ?R" "?f x = ?f y" using inR by blast+
    then show "x = y" by (rule renaming_inj)
  qed
  have "take ?n ?h' = h" by simp
  moreover from lk aR have "?f a < length ?h'" "?h' ! ?f a = rename_obj ?f (h ! a)"
    by (simp_all only: len)
  ultimately show ?thesis
    using eq fresh sep copy
    by (intro exI [of _ "?f a"] exI [of _ ?h']) blast
qed

lemma is_StateSpace_D: "is_StateSpace h (Ref a) \<Longrightarrow> a < length h \<and> (\<exists>A B C D. h ! a = StateSpaceObj A B C D)"
  by (auto simp: is_StateSpace_def lookup_def split: if_splits pyobj.splits)

lemma is_TransferFunction_D: "is_TransferFunction h (Ref a) \<Longrightarrow> a < length h \<and> (\<exists>n d. h ! a = TransferFunctionObj n d)"
  by (auto simp: is_TransferFunction_def lookup_def split: if_splits pyobj.splits)

lemma deepcopy_Ref:
  assumes wf: "wf_heap (heap st)" and a: "a < length (heap st)"
    and pl: "all_copied (heap st) (Ref a)"
  shows "\<exists>b st'. deepcopy (Ref a) st = (Inr (Ref b), st')
     \<and> b \<noteq> a \<and> length (heap st) \<le> b \<and> b < length (heap st')
     \<and> take (length (heap st)) (heap st') = heap st
     \<and> calls st' = calls st \<and> stdout st' = stdout st
     \<and> (\<exists>f. heap st' ! b = rename_obj f (heap st ! a))
     \<and> copy_of (heap st) a (heap st') b
     \<and> (\<forall>c obj. reaches (heap st') (Ref b) c \<longrightarrow>
           take (length (heap st)) ((heap st')[c := obj]) = heap st)"
proof -
  from deepcopy_heap_Ref [OF wf a pl] obtain b h' where
    d: "deepcopy_heap (heap st) (Ref a) = Some (Ref b, h')" and
    b: "length (heap st) \<le> b" "b < length h'" and
    fr: "take (length (heap st)) h' = heap st" and
    cell: "h' ! b = rename_obj (renaming (length (heap st)) (reach (heap st) [a] [])) (heap st ! a)" and
    cp: "copy_of (heap st) a h' b" and
    sep: "\<forall>c. reaches h' (Ref b) c \<longrightarrow> length (heap st) \<le> c"
    by blast
  have mut: "take (length (heap st)) (h'[c := obj]) = heap st" if "reaches h' (Ref b) c" for c obj
  proof -
    from sep that have "length (heap st) \<le> c" by blast
    then show ?thesis using fr by simp
  qed
  from d have "deepcopy (Ref a) st = (Inr (Ref b), st\<lparr>heap := h'\<rparr>)"
    by (simp add: deepcopy_def)
  moreover from a b have "b \<noteq> a" by simp
  ultimately show ?thesis
    using b fr cell cp mut
    by (intro exI [of _ b] exI [of _ "st\<lparr>heap := h'\<rparr>"]) auto
qed

text \<open>
  Claim C8, as stated: for every \<^verbatim>\<open>StateSpace\<close> object \<open>s\<close>, \<open>ss(s)\<close> returns a deep
  copy whose mutation does not alter \<open>s\<close>. It fails in two ways, both the doing of
  \<^verbatim>\<open>copy.deepcopy\<close>. When an attribute of \<open>s\<close> holds an atomic object (here \<^verbatim>\<open>A\<close> has
  been set to a function), the copy shares that object with \<open>s\<close>: the result reaches
  it, and writing to it changes an object of \<open>s\<close>. When an attribute holds an object
  that cannot be copied (here a lock), \<open>ss(s)\<close> returns nothing: it fails with
  \<^verbatim>\<open>TypeError\<close>.
\<close>

theorem ss_copy_shares_atomic_parts:
  "wf_heap (heap shared_state) \<and> is_StateSpace (heap shared_state) (Ref 4)
   \<and> ss example_env [Ref 4] shared_state =
       (Inr (Ref 5),
        shared_state\<lparr>heap := heap shared_state @
          [StateSpaceObj (Ref 0) (Ref 6) (Ref 7) (Ref 8),
           NdArray [[3]], NdArray [[4]], NdArray [[5]]]\<rparr>)
   \<and> reaches (heap shared_state @
          [StateSpaceObj (Ref 0) (Ref 6) (Ref 7) (Ref 8),
           NdArray [[3]], NdArray [[4]], NdArray [[5]]]) (Ref 5) 0
   \<and> reaches (heap shared_state) (Ref 4) 0
   \<and> take (length (heap shared_state))
        ((heap shared_state @
          [StateSpaceObj (Ref 0) (Ref 6) (Ref 7) (Ref 8),
           NdArray [[3]], NdArray [[4]], NdArray [[5]]])
         [0 := AtomicObj ''gain'' [(''tag'', PyInt 1)]])
       \<noteq> heap shared_state
   \<and> wf_heap (heap lock_state) \<and> is_StateSpace (heap lock_state) (Ref 4)
   \<and> ss example_env [Ref 4] lock_state = (Inl (Propagated TypeError), lock_state)"
proof -
  let ?new = "[StateSpaceObj (Ref 0) (Ref 6) (Ref 7) (Ref 8),
           NdArray [[3]], NdArray [[4]], NdArray [[5]]]"
  have 1: "wf_heap (heap shared_state) \<and> is_StateSpace (heap shared_state) (Ref 4)"
    by (simp add: wf_heap_def shared_state_def is_StateSpace_def lookup_def)
  have 2: "ss example_env [Ref 4] shared_state =
       (Inr (Ref 5), shared_state\<lparr>heap := heap shared_state @ ?new\<rparr>)"
    by (simp add: ss_def is_StateSpace_def lookup_def deepcopy_def deepcopy_heap_def
        reach.simps renaming_def shared_state_def copy_refs_def is_atomic_def copied_def)
  have "reaches (heap shared_state @ ?new) (Ref 5) 5"
    by (rule reaches.root) simp
  then have 3: "reaches (heap shared_state @ ?new) (Ref 5) 0"
    by (rule reaches.field) (simp_all add: shared_state_def)
  have "reaches (heap shared_state) (Ref 4) 4"
    by (rule reaches.root) simp
  then have 4: "reaches (heap shared_state) (Ref 4) 0"
    by (rule reaches.field) (simp_all add: shared_state_def)
  have 5: "take (length (heap shared_state))
        ((heap shared_state @ ?new) [0 := AtomicObj ''gain'' [(''tag'', PyInt 1)]])
       \<noteq> heap shared_state"
    by (simp add: shared_state_def)
  have 6: "wf_heap (heap lock_state) \<and> is_StateSpace (heap lock_state) (Ref 4)"
    by (simp add: wf_heap_def lock_state_def is_StateSpace_def lookup_def)
  have 7: "ss example_env [Ref 4] lock_state = (Inl (Propagated TypeError), lock_state)"
    by (simp add: ss_def is_StateSpace_def lookup_def deepcopy_def deepcopy_heap_def fail_def
        reach.simps lock_state_def copy_refs_def is_atomic_def)
  from 1 2 3 4 5 6 7 show ?thesis by blast
qed

text \<open>
  Claim C8, amended. Let \<open>s\<close> be a \<^verbatim>\<open>StateSpace\<close> object (in a well-formed store) such
  that every object the walk of \<^verbatim>\<open>deepcopy\<close> from \<open>s\<close> meets is one it copies: none is
  atomic (a function, a class) and none is uncopyable. Then \<open>ss(s)\<close> returns a deep
  copy. The result is an object that did not exist before, so it is distinct from
  \<open>s\<close>; it is a \<^verbatim>\<open>StateSpace\<close> heading a replica of everything \<open>s\<close> reaches; the call
  writes no existing object (and invokes no external routine), so \<open>s\<close> is unchanged;
  and overwriting any object that the result reaches leaves every object of the
  earlier store, \<open>s\<close> and its parts among them, as it was. The same holds for \<open>tf(t)\<close>
  when \<open>t\<close> is a \<^verbatim>\<open>TransferFunction\<close>.
\<close>

theorem ss_and_tf_deep_copy_of_plain_system:
  "(wf_heap (heap st) \<and> is_StateSpace (heap st) (Ref a) \<and> all_copied (heap st) (Ref a)
      \<longrightarrow>
     (\<exists>b st'. ss env [Ref a] st = (Inr (Ref b), st')
        \<and> b \<noteq> a \<and> length (heap st) \<le> b
        \<and> is_StateSpace (heap st') (Ref b) \<and> copy_of (heap st) a (heap st') b
        \<and> take (length (heap st)) (heap st') = heap st
        \<and> calls st' = calls st \<and> stdout st' = stdout st
        \<and> (\<forall>c obj. reaches (heap st') (Ref b) c \<longrightarrow>
              take (length (heap st)) ((heap st')[c := obj]) = heap st)))
   \<and> (wf_heap (heap st) \<and> is_TransferFunction (heap st) (Ref a) \<and> all_copied (heap st) (Ref a)
      \<longrightarrow>
     (\<exists>b st'. tf env [Ref a] st = (Inr (Ref b), st')
        \<and> b \<noteq> a \<and> length (heap st) \<le> b
        \<and> is_TransferFunction (heap st') (Ref b) \<and> copy_of (heap st) a (heap st') b
        \<and> take (length (heap st)) (heap st') = heap st
        \<and> calls st' = calls st \<and> stdout st' = stdout st
        \<and> (\<forall>c obj. reaches (heap st') (Ref b) c \<longrightarrow>
              take (length (heap st)) ((heap st')[c := obj]) = heap st)))"
proof (intro conjI impI)
  assume h: "wf_heap (heap st) \<and> is_StateSpace (heap st) (Ref a) \<and> all_copied (heap st) (Ref a)"
  then obtain A B C D where a: "a < length (heap st)" and obj: "heap st ! a = StateSpaceObj A B C D"
    by (auto dest: is_StateSpace_D)
  from h a deepcopy_Ref [of st a] obtain b st' where
    d: "deepcopy (Ref a) st = (Inr (Ref b), st')" and
    p: "b \<noteq> a" "length (heap st) \<le> b" "b < length (heap st')"
       "take (length (heap st)) (heap st') = heap st"
       "calls st' = calls st" "stdout st' = stdout st"
       "copy_of (heap st) a (heap st') b"
       "\<forall>c obj. reaches (heap st') (Ref b) c \<longrightarrow>
           take (length (heap st)) ((heap st')[c := obj]) = heap st" and
    f: "\<exists>f. heap st' ! b = rename_obj f (heap st ! a)"
    by blast
  from f obj p(3) have "is_StateSpace (heap st') (Ref b)"
    by (auto simp: is_StateSpace_def lookup_def)
  moreover from h d have "ss env [Ref a] st = (Inr (Ref b), st')"
    by (simp add: ss_def)
  ultimately show "\<exists>b st'. ss env [Ref a] st = (Inr (Ref b), st')
        \<and> b \<noteq> a \<and> length (heap st) \<le> b
        \<and> is_StateSpace (heap st') (Ref b) \<and> copy_of (heap st) a (heap st') b
        \<and> take (length (heap st)) (heap st') = heap st
        \<and> calls st' = calls st \<and> stdout st' = stdout st
        \<and> (\<forall>c obj. reaches (heap st') (Ref b) c \<longrightarrow>
              take (length (heap st)) ((heap st')[c := obj]) = heap st)"
    using p by blast
next
  assume h: "wf_heap (heap st) \<and> is_TransferFunction (heap st) (Ref a) \<and> all_copied (heap st) (Ref a)"
  then obtain n d where a: "a < length (heap st)" and obj: "heap st ! a = TransferFunctionObj n d"
    by (auto dest: is_TransferFunction_D)
  from h have ns: "\<not> is_StateSpace (heap st) (Ref a)"
    using obj by (auto dest: is_StateSpace_D)
  from h a deepcopy_Ref [of st a] obtain b st' where
    d: "deepcopy (Ref a) st = (Inr (Ref b), st')" and
    p: "b \<noteq> a" "length (heap st) \<le> b" "b < length (heap st')"
       "take (length (heap st)) (heap st') = heap st"
       "calls st' = calls st" "stdout st' = stdout st"
       "copy_of (heap st) a (heap st') b"
       "\<forall>c obj. reaches (heap st') (Ref b) c \<longrightarrow>
           take (length (heap st)) ((heap st')[c := obj]) = heap st" and
    f: "\<exists>f. heap st' ! b = rename_obj f (heap st ! a)"
    by blast
  from f obj p(3) have "is_TransferFunction (heap st') (Ref b)"
    by (auto simp: is_TransferFunction_def lookup_def)
  moreover from h ns d have "tf env [Ref a] st = (Inr (Ref b), st')"
    by (simp add: tf_def)
  ultimately show "\<exists>b st'. tf env [Ref a] st = (Inr (Ref b), st')
        \<and> b \<noteq> a \<and> length (heap st) \<le> b
        \<and> is_TransferFunction (heap st') (Ref b) \<and> copy_of (heap st) a (heap st') b
        \<and> take (length (heap st)) (heap st') = heap st
        \<and> calls st' = calls st \<and> stdout st' = stdout st
        \<and> (\<forall>c obj. reaches (heap st') (Ref b) c \<longrightarrow>
              take (length (heap st)) ((heap st')[c := obj]) = heap st)"
    using p by blast
qed

theorem ss_and_tf_deep_copy_of_plain_system_witness:
  "wf_heap (heap example_state) \<and> is_StateSpace (heap example_state) (Ref 4)
   \<and> all_copied (heap example_state) (Ref 4)
   \<and> wf_heap (heap tf_state) \<and> is_TransferFunction (heap tf_state) (Ref 2)
   \<and> all_copied (heap tf_state) (Ref 2)
   \<and> (\<exists>b st'. ss example_env [Ref 4] example_state = (Inr (Ref b), st')
        \<and> b \<noteq> 4 \<and> length (heap example_state) \<le> b
        \<and> is_StateSpace (heap st') (Ref b)
        \<and> take (length (heap example_state)) (heap st') = heap example_state)
   \<and> (\<exists>b st'. tf example_env [Ref 2] tf_state = (Inr (Ref b), st')
        \<and> b \<noteq> 2 \<and> length (heap tf_state) \<le> b
        \<and> is_TransferFunction (heap st') (Ref b)
        \<and> take (length (heap tf_state)) (heap st') = heap tf_state)
   \<and> ss example_env [Ref 4] example_state =
       (Inr (Ref 5),
        example_state\<lparr>heap := heap example_state @
          [StateSpaceObj (Ref 6) (Ref 7) (Ref 8) (Ref 9),
           NdArray [[2]], NdArray [[3]], NdArray [[4]], NdArray [[5]]]\<rparr>)
   \<and> tf example_env [Ref 2] tf_state =
       (Inr (Ref 3),
        tf_state\<lparr>heap := heap tf_state @
          [TransferFunctionObj (Ref 4) (Ref 5),
           ListObj [PyFloat 1], ListObj [PyFloat 1, PyFloat 2]]\<rparr>)"
proof -
  have e1: "ss example_env [Ref 4] example_state =
       (Inr (Ref 5),
        example_state\<lparr>heap := heap example_state @
          [StateSpaceObj (Ref 6) (Ref 7) (Ref 8) (Ref 9),
           NdArray [[2]], NdArray [[3]], NdArray [[4]], NdArray [[5]]]\<rparr>)"
    by (simp add: ss_def is_StateSpace_def lookup_def deepcopy_def deepcopy_heap_def
        reach.simps renaming_def example_state_def copy_refs_def is_atomic_def copied_def)
  have e2: "tf example_env [Ref 2] tf_state =
       (Inr (Ref 3),
        tf_state\<lparr>heap := heap tf_state @
          [TransferFunctionObj (Ref 4) (Ref 5),
           ListObj [PyFloat 1], ListObj [PyFloat 1, PyFloat 2]]\<rparr>)"
    by (simp add: tf_def is_StateSpace_def is_TransferFunction_def lookup_def deepcopy_def
        deepcopy_heap_def reach.simps renaming_def tf_state_def copy_refs_def is_atomic_def
        copied_def)
  have 1: "wf_heap (heap example_state) \<and> is_StateSpace (heap example_state) (Ref 4)
      \<and> all_copied (heap example_state) (Ref 4)"
    by (simp add: wf_heap_def example_state_def is_StateSpace_def lookup_def all_copied_def
        reach.simps copy_refs_def is_atomic_def plain_def)
  have 2: "wf_heap (heap tf_state) \<and> is_TransferFunction (heap tf_state) (Ref 2)
      \<and> all_copied (heap tf_state) (Ref 2)"
    by (simp add: wf_heap_def tf_state_def is_TransferFunction_def lookup_def all_copied_def
        reach.simps copy_refs_def is_atomic_def plain_def)
  from 1 ss_and_tf_deep_copy_of_plain_system [of example_state 4 example_env]
  have "\<exists>b st'. ss example_env [Ref 4] example_state = (Inr (Ref b), st')
        \<and> b \<noteq> 4 \<and> length (heap example_state) \<le> b
        \<and> is_StateSpace (heap st') (Ref b)
        \<and> take (length (heap example_state)) (heap st') = heap example_state"
    by blast
  moreover from 2 ss_and_tf_deep_copy_of_plain_system [of tf_state 2 example_env]
  have "\<exists>b st'. tf example_env [Ref 2] tf_state = (Inr (Ref b), st')
        \<and> b \<noteq> 2 \<and> length (heap tf_state) \<le> b
        \<and> is_TransferFunction (heap st') (Ref b)
        \<and> take (length (heap tf_state)) (heap st') = heap tf_state"
    by blast
  ultimately show ?thesis using 1 2 e1 e2 by blast
qed

section \<open>Steady-state gain\<close>

lemma getattr_StateSpace:
  "lookup (heap st) s = Some (StateSpaceObj A B C D) \<Longrightarrow>
   getattr env (Ref s) ''A'' st = (Inr A, st) \<and> getattr env (Ref s) ''B'' st = (Inr B, st) \<and>
   getattr env (Ref s) ''C'' st = (Inr C, st) \<and> getattr env (Ref s) ''D'' st = (Inr D, st)"
  by (simp add: getattr_def returns_def)

lemma dcgain_conv:
  assumes "(length args = 4 \<and> ss env [args ! 0, args ! 1, args ! 2, args ! 3] st = (Inr sys, st1))
     \<or> (length args = 3 \<and>
          (\<exists>r st0 m st0'. invoke env zpk2ss [args ! 0, args ! 1, args ! 2] [] st = (Inr r, st0)
             \<and> unpack env 4 r st0 = (Inr m, st0')
             \<and> ss env [m ! 0, m ! 1, m ! 2, m ! 3] st0' = (Inr sys, st1)))
     \<or> (length args = 2 \<and> tf2ss env [args ! 0, args ! 1] st = (Inr sys, st1))
     \<or> (length args = 1 \<and> ss env [args ! 0] st = (Inr sys, st1))"
  shows "dcgain env args st =
     and_then (getattr env sys ''D'') (\<lambda>d.
          and_then (getattr env sys ''C'') (\<lambda>c.
          and_then (getattr env sys ''A'') (\<lambda>a.
          and_then (getattr env a ''I'') (\<lambda>ai.
          and_then (invoke env op_mul [c, ai] []) (\<lambda>cai.
          and_then (getattr env sys ''B'') (\<lambda>b.
          and_then (invoke env op_mul [cai, b] []) (\<lambda>caib.
          invoke env op_sub [d, caib] []))))))) st1"
  using assms by (auto simp: dcgain_def and_then_def)

text \<open>
  Claim C9. For each accepted argument form, \<open>dcgain\<close> first converts the input to a
  state-space system \<open>sys\<close>: \<open>ss(A, B, C, D)\<close> for four arguments, \<open>zpk2ss\<close> followed by
  \<open>ss\<close> for three, \<open>tf2ss(num, den)\<close> for two, \<open>ss(sys)\<close> for one. When \<open>sys.A\<close> has
  an inverse \<open>AI\<close> (its attribute \<^verbatim>\<open>I\<close>), the result is \<open>sys.D - (sys.C * AI) * sys.B\<close>,
  with the product and the difference of the matrix class; \<open>sys.B\<close> is read after the
  first product has been computed.
\<close>

theorem dcgain_formula:
  assumes conv:
    "(length args = 4 \<and> ss env [args ! 0, args ! 1, args ! 2, args ! 3] st = (Inr (Ref s), st1))
     \<or> (length args = 3 \<and>
          (\<exists>r st0 m st0'. invoke env zpk2ss [args ! 0, args ! 1, args ! 2] [] st = (Inr r, st0)
             \<and> unpack env 4 r st0 = (Inr m, st0')
             \<and> ss env [m ! 0, m ! 1, m ! 2, m ! 3] st0' = (Inr (Ref s), st1)))
     \<or> (length args = 2 \<and> tf2ss env [args ! 0, args ! 1] st = (Inr (Ref s), st1))
     \<or> (length args = 1 \<and> ss env [args ! 0] st = (Inr (Ref s), st1))"
    and sys: "lookup (heap st1) s = Some (StateSpaceObj A B C D)"
    and inv: "getattr env A ''I'' st1 = (Inr AI, st2)"
    and mul1: "invoke env op_mul [C, AI] [] st2 = (Inr CAI, st3)"
    and sys3: "lookup (heap st3) s = Some (StateSpaceObj A' B' C' D')"
    and mul2: "invoke env op_mul [CAI, B'] [] st3 = (Inr CAIB, st4)"
    and sub: "invoke env op_sub [D, CAIB] [] st4 = (Inr G, st5)"
  shows "dcgain env args st = (Inr G, st5)"
proof -
  note g1 = getattr_StateSpace [OF sys, of env]
  note g3 = getattr_StateSpace [OF sys3, of env]
  show ?thesis
    by (simp add: dcgain_conv [OF conv] and_then_def g1 g3 inv mul1 mul2 sub)
qed

theorem dcgain_formula_witness:
  "dcgain example_env [Ref 0, Ref 1, Ref 2, Ref 3] example_state =
     (Inr (Ref 9),
      \<lparr>heap = [NdArray [[2]], NdArray [[3]], NdArray [[4]], NdArray [[5]],
               StateSpaceObj (Ref 0) (Ref 1) (Ref 2) (Ref 3),
               StateSpaceObj (Ref 0) (Ref 1) (Ref 2) (Ref 3),
               NdArray [[1 / 2]], NdArray [[2]], NdArray [[6]], NdArray [[5 - 4 * (1 / 2) * 3]]],
       calls = [(StateSpace, [Ref 0, Ref 1, Ref 2, Ref 3], []),
                (op_getattr ''I'', [Ref 0], []), (op_mul, [Ref 2, Ref 6], []),
                (op_mul, [Ref 7, Ref 1], []), (op_sub, [Ref 3, Ref 8], [])],
       stdout = []\<rparr>)"
proof -
  let ?h = "[NdArray [[2]], NdArray [[3]], NdArray [[4]], NdArray [[5]],
             StateSpaceObj (Ref 0) (Ref 1) (Ref 2) (Ref 3),
             StateSpaceObj (Ref 0) (Ref 1) (Ref 2) (Ref 3)]"
  let ?c1 = "[(StateSpace, [Ref 0, Ref 1, Ref 2, Ref 3], [])]"
  let ?st1 = "\<lparr>heap = ?h, calls = ?c1, stdout = []\<rparr>"
  let ?st2 = "\<lparr>heap = ?h @ [NdArray [[1 / 2]]],
               calls = ?c1 @ [(op_getattr ''I'', [Ref 0], [])], stdout = []\<rparr>"
  let ?st3 = "\<lparr>heap = ?h @ [NdArray [[1 / 2]], NdArray [[2]]],
               calls = ?c1 @ [(op_getattr ''I'', [Ref 0], []), (op_mul, [Ref 2, Ref 6], [])],
               stdout = []\<rparr>"
  let ?st4 = "\<lparr>heap = ?h @ [NdArray [[1 / 2]], NdArray [[2]], NdArray [[6]]],
               calls = ?c1 @ [(op_getattr ''I'', [Ref 0], []), (op_mul, [Ref 2, Ref 6], []),
                 (op_mul, [Ref 7, Ref 1], [])],
               stdout = []\<rparr>"
  let ?st5 = "\<lparr>heap = ?h @ [NdArray [[1 / 2]], NdArray [[2]], NdArray [[6]], NdArray [[- 1]]],
               calls = ?c1 @ [(op_getattr ''I'', [Ref 0], []), (op_mul, [Ref 2, Ref 6], []),
                 (op_mul, [Ref 7, Ref 1], []), (op_sub, [Ref 3, Ref 8], [])],
               stdout = []\<rparr>"
  let ?args = "[Ref 0, Ref 1, Ref 2, Ref 3]"
  have conv: "(length ?args = 4 \<and>
      ss example_env [?args ! 0, ?args ! 1, ?args ! 2, ?args ! 3] example_state = (Inr (Ref 5), ?st1))
     \<or> (length ?args = 3 \<and>
          (\<exists>r st0 m st0'. invoke example_env zpk2ss [?args ! 0, ?args ! 1, ?args ! 2] [] example_state
               = (Inr r, st0)
             \<and> unpack example_env 4 r st0 = (Inr m, st0')
             \<and> ss example_env [m ! 0, m ! 1, m ! 2, m ! 3] st0' = (Inr (Ref 5), ?st1)))
     \<or> (length ?args = 2 \<and> tf2ss example_env [?args ! 0, ?args ! 1] example_state = (Inr (Ref 5), ?st1))
     \<or> (length ?args = 1 \<and> ss example_env [?args ! 0] example_state = (Inr (Ref 5), ?st1))"
    by (simp add: ss_def invoke_def example_env_def example_extern_def example_state_def)
  have sys: "lookup (heap ?st1) 5 = Some (StateSpaceObj (Ref 0) (Ref 1) (Ref 2) (Ref 3))"
    by (simp add: lookup_def)
  have inv: "getattr example_env (Ref 0) ''I'' ?st1 = (Inr (Ref 6), ?st2)"
    by (simp add: getattr_def lookup_def invoke_def example_env_def example_extern_def mat1_def)
  have mul1: "invoke example_env op_mul [Ref 2, Ref 6] [] ?st2 = (Inr (Ref 7), ?st3)"
    by (simp add: lookup_def invoke_def example_env_def example_extern_def mat1_def)
  have sys3: "lookup (heap ?st3) 5 = Some (StateSpaceObj (Ref 0) (Ref 1) (Ref 2) (Ref 3))"
    by (simp add: lookup_def)
  have mul2: "invoke example_env op_mul [Ref 7, Ref 1] [] ?st3 = (Inr (Ref 8), ?st4)"
    by (simp add: lookup_def invoke_def example_env_def example_extern_def mat1_def)
  have sub: "invoke example_env op_sub [Ref 3, Ref 8] [] ?st4 = (Inr (Ref 9), ?st5)"
    by (simp add: lookup_def invoke_def example_env_def example_extern_def mat1_def)
  from dcgain_formula [OF conv sys inv mul1 sys3 mul2 sub]
  show ?thesis by simp
qed

section \<open>Statelessness of the conversion wrappers\<close>

lemma obj_skel_rename: "obj_skel (rename_obj f obj) = obj_skel obj"
  by (cases obj) (simp_all add: comp_def)

lemma obj_vals_rename: "obj_vals (rename_obj f obj) = map (rename_val f) (obj_vals obj)"
  by (cases obj) (simp_all add: comp_def)

lemma obj_refs_vals: "obj_refs obj = concat (map val_refs (obj_vals obj))"
  by (cases obj) (simp_all add: comp_def)

lemma is_atomic_skel: "is_atomic (obj_skel obj) = is_atomic obj"
  by (cases obj) (simp_all add: is_atomic_def)

lemma skel_uncopyable: "obj_skel obj = UncopyableObj \<longleftrightarrow> obj = UncopyableObj"
  by (cases obj) simp_all

lemma vals_refs_subset:
  "w \<in> set (obj_vals obj) \<Longrightarrow> set (val_refs w) \<subseteq> set (obj_refs obj)"
  by (auto simp: obj_refs_vals)

lemma denote_append:
  "wf_heap h \<Longrightarrow> valid h v \<Longrightarrow> denote n (h @ e) v = denote n h v"
proof (induction n h v rule: denote.induct)
  case (1 n h xs)
  then show ?case by (auto simp: valid_def)
next
  case (2 h a)
  then show ?case by simp
next
  case (3 n h a)
  from "3.prems" have a: "a < length h" by (simp add: valid_def)
  have "map (denote n (h @ e)) (obj_vals (h ! a)) = map (denote n h) (obj_vals (h ! a))"
  proof (rule map_cong [OF refl])
    fix x assume x: "x \<in> set (obj_vals (h ! a))"
    then have "set (val_refs x) \<subseteq> set (obj_refs (h ! a))"
      by (auto simp: obj_refs_vals)
    moreover from a have "h ! a \<in> set h" by simp
    ultimately have "valid h x"
      using "3.prems"(1) unfolding valid_def wf_heap_def by blast
    with "3.IH" [of "h ! a" x] a x "3.prems"(1) show "denote n (h @ e) x = denote n h x"
      by (simp add: lookup_def)
  qed
  with a show ?case
    by (simp add: lookup_def nth_append)
qed simp_all

lemma denote_copy:
  "wf_heap h \<Longrightarrow>
   \<forall>x \<in> set R. x < length h \<and> set (copy_refs (h ! x)) \<subseteq> set R \<Longrightarrow>
   set (val_refs v) \<subseteq> set R \<Longrightarrow>
   denote n (h @ map (\<lambda>x. rename_obj (renaming (length h) (copied h R)) (h ! x)) (copied h R))
     (rename_val (renaming (length h) (copied h R)) v) = denote n h v"
proof (induction n h v rule: denote.induct)
  case (1 n h xs)
  then show ?case by (auto simp: subset_iff)
next
  case (2 h a)
  then show ?case by simp
next
  case (3 n h a)
  let ?C = "copied h R"
  let ?f = "renaming (length h) ?C"
  let ?h' = "h @ map (\<lambda>x. rename_obj ?f (h ! x)) ?C"
  note wf = "3.prems"(1) and R = "3.prems"(2)
  from "3.prems" have aR: "a \<in> set R" by simp
  with R have a: "a < length h" "set (copy_refs (h ! a)) \<subseteq> set R" by blast+
  show ?case
  proof (cases "is_atomic (h ! a)")
    case True
    with aR have "a \<notin> set ?C" by (simp add: copied_def)
    then have "?f a = a" by (rule renaming_id)
    moreover from a(1) have "valid h (Ref a)" by (simp add: valid_def)
    with wf have "denote (Suc n) ?h' (Ref a) = denote (Suc n) h (Ref a)"
      by (rule denote_append)
    ultimately show ?thesis by simp
  next
    case False
    with aR have aC: "a \<in> set ?C" by (simp add: copied_def)
    from renaming_lookup [OF aC, of h "\<lambda>x. rename_obj ?f (h ! x)"]
    have lk: "lookup ?h' (?f a) = Some (rename_obj ?f (h ! a))"
      by (simp add: lookup_def)
    have "map (denote n ?h' \<circ> rename_val ?f) (obj_vals (h ! a))
        = map (denote n h) (obj_vals (h ! a))"
    proof (rule map_cong [OF refl])
      fix x assume x: "x \<in> set (obj_vals (h ! a))"
      then have "set (val_refs x) \<subseteq> set (obj_refs (h ! a))"
        by (rule vals_refs_subset)
      with False a(2) have "set (val_refs x) \<subseteq> set R"
        by (simp add: copy_refs_plain)
      with "3.IH" [of "h ! a" x] a(1) x wf R
      show "(denote n ?h' \<circ> rename_val ?f) x = denote n h x"
        by (simp add: lookup_def)
    qed
    with a(1) lk show ?thesis
      by (simp add: lookup_def obj_skel_rename obj_vals_rename)
  qed
qed simp_all

lemma occurs_uncopyable:
  "occurs n h v x \<Longrightarrow> h ! x = UncopyableObj \<Longrightarrow> has_uncopyable (denote n h v)"
proof (induction n h v x rule: occurs.induct)
  case (1 n h xs x)
  then show ?case by auto
next
  case (3 n h a x)
  from "3.prems" have a: "a < length h" by simp
  show ?case
  proof (cases "a = x")
    case True
    with a "3.prems" show ?thesis by (simp add: lookup_def)
  next
    case False
    with "3.prems" obtain w where w: "\<not> is_atomic (h ! a)" "w \<in> set (obj_vals (h ! a))"
      "occurs n h w x" by auto
    with "3.IH" [of w] "3.prems"(2) have "has_uncopyable (denote n h w)" by blast
    with w a show ?thesis by (auto simp: lookup_def is_atomic_skel)
  qed
qed simp_all

lemma val_refs_occurs:
  "x \<in> set (val_refs w) \<Longrightarrow> x < length h \<Longrightarrow> occurs (Suc n) h w x"
  by (induction w) auto

lemma occurs_step:
  "occurs n h v a \<Longrightarrow> x \<in> set (copy_refs (h ! a)) \<Longrightarrow> x < length h \<Longrightarrow> occurs (Suc n) h v x"
proof (induction n h v a rule: occurs.induct)
  case (1 n h xs a)
  then show ?case by auto
next
  case (3 n h b a)
  from "3.prems" have b: "b < length h" by simp
  show ?case
  proof (cases "b = a")
    case True
    from "3.prems"(2) have na: "\<not> is_atomic (h ! a)" and "x \<in> set (obj_refs (h ! a))"
      by (auto simp: copy_refs_def split: if_splits)
    then obtain w where w: "w \<in> set (obj_vals (h ! a))" "x \<in> set (val_refs w)"
      by (auto simp: obj_refs_vals)
    from w(2) "3.prems"(3) have "occurs (Suc n) h w x" by (rule val_refs_occurs)
    with True b na w(1) show ?thesis by auto
  next
    case False
    with "3.prems" obtain w where w: "\<not> is_atomic (h ! b)" "w \<in> set (obj_vals (h ! b))"
      "occurs n h w a" by auto
    with "3.IH" [of w] "3.prems"(2,3) have "occurs (Suc n) h w x" by blast
    with b w show ?thesis by auto
  qed
qed simp_all

lemma reach_occurs:
  "\<forall>y \<in> set vis \<union> set ws. y < length h \<longrightarrow> (\<exists>n. occurs n h v y) \<Longrightarrow>
   \<forall>y \<in> set (reach h ws vis). y < length h \<longrightarrow> (\<exists>n. occurs n h v y)"
proof (induction h ws vis rule: reach.induct)
  case (1 h vis)
  then show ?case by (simp add: reach.simps)
next
  case (2 h a ws vis)
  show ?case
  proof (cases "a \<in> set vis \<or> length h \<le> a")
    case True
    from "2.prems" have "\<forall>y \<in> set vis \<union> set ws. y < length h \<longrightarrow> (\<exists>n. occurs n h v y)"
      by auto
    with True "2.IH"(1) show ?thesis by (simp add: reach.simps)
  next
    case False
    then have a: "a < length h" by simp
    with "2.prems" obtain n where n: "occurs n h v a" by auto
    have "\<forall>y \<in> set (vis @ [a]) \<union> set (copy_refs (h ! a) @ ws).
        y < length h \<longrightarrow> (\<exists>n. occurs n h v y)"
    proof (intro ballI impI)
      fix y assume y: "y \<in> set (vis @ [a]) \<union> set (copy_refs (h ! a) @ ws)" and lt: "y < length h"
      show "\<exists>n. occurs n h v y"
      proof (cases "y \<in> set (copy_refs (h ! a))")
        case True
        from occurs_step [OF n True lt] have "occurs (Suc n) h v y" .
        then show ?thesis ..
      next
        case False
        with y have "y \<in> set vis \<union> set (a # ws)" by auto
        with "2.prems" lt show ?thesis by blast
      qed
    qed
    with False "2.IH"(2) show ?thesis by (simp add: reach.simps)
  qed
qed

lemma has_uncopyable_closed:
  "\<forall>x \<in> S. x < length h \<and> set (copy_refs (h ! x)) \<subseteq> S \<Longrightarrow>
   set (val_refs v) \<subseteq> S \<Longrightarrow> has_uncopyable (denote n h v) \<Longrightarrow>
   \<exists>x \<in> S. h ! x = UncopyableObj"
proof (induction n h v rule: denote.induct)
  case (1 n h xs)
  from "1.prems"(3) obtain w where w: "w \<in> set xs" "has_uncopyable (denote n h w)"
    by auto
  with "1.prems"(2) have "set (val_refs w) \<subseteq> S" by auto
  with "1.IH" [OF w(1) "1.prems"(1)] w(2) show ?case by blast
next
  case (3 n h a)
  from "3.prems" have aS: "a \<in> S" by simp
  with "3.prems"(1) have a: "a < length h" "set (copy_refs (h ! a)) \<subseteq> S" by blast+
  show ?case
  proof (cases "h ! a = UncopyableObj")
    case True
    with aS show ?thesis by blast
  next
    case False
    with "3.prems"(3) a(1) obtain w where na: "\<not> is_atomic (h ! a)"
      and w: "w \<in> set (obj_vals (h ! a))" "has_uncopyable (denote n h w)"
      by (auto simp: lookup_def skel_uncopyable is_atomic_skel)
    from w(1) have "set (val_refs w) \<subseteq> set (obj_refs (h ! a))"
      by (rule vals_refs_subset)
    with na a(2) have "set (val_refs w) \<subseteq> S" by (simp add: copy_refs_plain)
    with "3.IH" [of "h ! a" w] a(1) w "3.prems"(1) show ?thesis
      by (simp add: lookup_def)
  qed
qed simp_all

lemma uncopyable_iff:
  assumes wf: "wf_heap h" and a: "a < length h"
  shows "list_ex (\<lambda>x. h ! x = UncopyableObj) (reach h [a] [])
     \<longleftrightarrow> (\<exists>n. has_uncopyable (denote n h (Ref a)))"
proof
  assume "list_ex (\<lambda>x. h ! x = UncopyableObj) (reach h [a] [])"
  then obtain x where x: "x \<in> set (reach h [a] [])" "h ! x = UncopyableObj"
    by (auto simp: list_ex_iff)
  from reach_root_closed [OF wf a] x(1) have lt: "x < length h" by blast
  have "\<forall>y \<in> set [] \<union> set [a]. y < length h \<longrightarrow> (\<exists>n. occurs n h (Ref a) y)"
  proof (intro ballI impI)
    fix y assume "y \<in> set [] \<union> set [a]" and "y < length h"
    then have "occurs (Suc 0) h (Ref a) y" by simp
    then show "\<exists>n. occurs n h (Ref a) y" ..
  qed
  from reach_occurs [OF this] x(1) lt obtain n where n: "occurs n h (Ref a) x" by blast
  from occurs_uncopyable [OF n x(2)] have "has_uncopyable (denote n h (Ref a))" .
  then show "\<exists>n. has_uncopyable (denote n h (Ref a))" ..
next
  assume "\<exists>n. has_uncopyable (denote n h (Ref a))"
  then obtain n where n: "has_uncopyable (denote n h (Ref a))" ..
  from reach_root_closed [OF wf a]
  have cl: "\<forall>x \<in> set (reach h [a] []). x < length h \<and>
      set (copy_refs (h ! x)) \<subseteq> set (reach h [a] [])"
    and "set (val_refs (Ref a)) \<subseteq> set (reach h [a] [])" by auto
  from has_uncopyable_closed [OF this n]
  show "list_ex (\<lambda>x. h ! x = UncopyableObj) (reach h [a] [])"
    by (simp add: list_ex_iff)
qed

lemma same_value_sym: "same_value h1 v1 h2 v2 \<Longrightarrow> same_value h2 v2 h1 v1"
  by (simp add: same_value_def)

lemma same_value_trans:
  "same_value h1 v1 h2 v2 \<Longrightarrow> same_value h2 v2 h3 v3 \<Longrightarrow> same_value h1 v1 h3 v3"
  by (simp add: same_value_def)

lemma is_StateSpace_denote:
  "is_StateSpace h v = (\<exists>ts. denote (Suc 0) h v = Node (StateSpaceObj PyNone PyNone PyNone PyNone) ts)"
proof (cases v)
  case (Ref a)
  show ?thesis
  proof (cases "lookup h a")
    case None
    with Ref show ?thesis by (simp add: is_StateSpace_def)
  next
    case (Some obj)
    with Ref show ?thesis by (cases obj) (simp_all add: is_StateSpace_def)
  qed
qed (simp_all add: is_StateSpace_def)

lemma is_TransferFunction_denote:
  "is_TransferFunction h v = (\<exists>ts. denote (Suc 0) h v = Node (TransferFunctionObj PyNone PyNone) ts)"
proof (cases v)
  case (Ref a)
  show ?thesis
  proof (cases "lookup h a")
    case None
    with Ref show ?thesis by (simp add: is_TransferFunction_def)
  next
    case (Some obj)
    with Ref show ?thesis by (cases obj) (simp_all add: is_TransferFunction_def)
  qed
qed (simp_all add: is_TransferFunction_def)

lemma same_value_is_StateSpace:
  "same_value h1 v1 h2 v2 \<Longrightarrow> is_StateSpace h1 v1 = is_StateSpace h2 v2"
  by (simp add: is_StateSpace_denote same_value_def)

lemma same_value_is_TransferFunction:
  "same_value h1 v1 h2 v2 \<Longrightarrow> is_TransferFunction h1 v1 = is_TransferFunction h2 v2"
  by (simp add: is_TransferFunction_denote same_value_def)

lemma deepcopy_heap_same_value:
  assumes wf: "wf_heap h" and a: "a < length h"
    and d: "deepcopy_heap h (Ref a) = Some (v', h')"
  shows "\<exists>b. v' = Ref b \<and> b < length h' \<and> wf_heap h' \<and> same_value h' (Ref b) h (Ref a)"
proof -
  let ?R = "reach h [a] []"
  let ?C = "copied h ?R"
  let ?f = "renaming (length h) ?C"
  let ?h' = "h @ map (\<lambda>x. rename_obj ?f (h ! x)) ?C"
  from d have eq: "v' = Ref (?f a)" "h' = ?h'"
    by (auto simp: deepcopy_heap_def Let_def split: if_splits)
  from reach_root_closed [OF wf a] have aR: "a \<in> set ?R"
    and cl: "\<forall>x \<in> set ?R. x < length h \<and> set (copy_refs (h ! x)) \<subseteq> set ?R"
    by blast+
  have CR: "set ?C \<subseteq> set ?R" by (auto simp: copied_def)
  have lk: "x \<in> set ?C \<Longrightarrow> ?f x < length ?h' \<and> ?h' ! (?f x) = rename_obj ?f (h ! x)" for x
    using renaming_lookup [of x ?C h "\<lambda>x. rename_obj ?f (h ! x)"] by simp
  have fb: "x < length h \<Longrightarrow> ?f x < length ?h'" for x
  proof (cases "x \<in> set ?C")
    case True
    with lk show ?thesis by blast
  next
    case False
    assume "x < length h"
    with False show ?thesis by (simp add: renaming_id)
  qed
  have sv: "same_value ?h' (Ref (?f a)) h (Ref a)"
    unfolding same_value_def
  proof
    fix n
    from aR have "set (val_refs (Ref a)) \<subseteq> set ?R" by simp
    from denote_copy [OF wf cl this, of n]
    show "denote n ?h' (Ref (?f a)) = denote n h (Ref a)" by simp
  qed
  have wf': "wf_heap ?h'"
    unfolding wf_heap_def
  proof (intro ballI)
    fix obj y assume obj: "obj \<in> set ?h'" and y: "y \<in> set (obj_refs obj)"
    from obj have "obj \<in> set h \<or> (\<exists>x \<in> set ?C. obj = rename_obj ?f (h ! x))" by auto
    then show "y < length ?h'"
    proof
      assume "obj \<in> set h"
      with wf y have "y < length h" by (auto simp: wf_heap_def)
      then show ?thesis by simp
    next
      assume "\<exists>x \<in> set ?C. obj = rename_obj ?f (h ! x)"
      then obtain x where x: "x \<in> set ?C" "obj = rename_obj ?f (h ! x)" by blast
      with y obtain z where z: "z \<in> set (obj_refs (h ! x))" "y = ?f z"
        by (auto simp: obj_refs_rename)
      from x(1) CR cl have "x < length h" by blast
      then have "h ! x \<in> set h" by simp
      with wf z(1) have "z < length h" by (auto simp: wf_heap_def)
      with fb z(2) show ?thesis by simp
    qed
  qed
  from fb [OF a] wf' sv eq show ?thesis by blast
qed

lemma deepcopy_heap_None:
  assumes "wf_heap h" and "a < length h"
  shows "deepcopy_heap h (Ref a) = None \<longleftrightarrow> (\<exists>n. has_uncopyable (denote n h (Ref a)))"
  using uncopyable_iff [OF assms] by (simp add: deepcopy_heap_def Let_def)

lemma agree_raise: "wf_heap (heap st1) \<Longrightarrow> wf_heap (heap st2) \<Longrightarrow> agree (raise e st1) (raise e st2)"
  by (simp add: agree_def raise_def)

lemma agree_invoke:
  assumes "value_determined env r" "wf_heap (heap st1)" "wf_heap (heap st2)"
    "same_args (heap st1) args1 (heap st2) args2"
  shows "agree (invoke env r args1 kw st1) (invoke env r args2 kw st2)"
proof -
  from assms have "agree_ext (extern env r args1 kw (heap st1)) (extern env r args2 kw (heap st2))"
    unfolding value_determined_def by blast
  then show ?thesis
    by (auto simp: agree_ext_def agree_def invoke_def split: prod.splits sum.splits)
qed

lemma agree_and_then:
  assumes "agree (m1 st1) (m2 st2)"
    and "\<And>v1 s1 v2 s2. m1 st1 = (Inr v1, s1) \<Longrightarrow> m2 st2 = (Inr v2, s2) \<Longrightarrow>
           wf_heap (heap s1) \<Longrightarrow> wf_heap (heap s2) \<Longrightarrow>
           same_args (heap s1) [v1] (heap s2) [v2] \<Longrightarrow> agree (f1 v1 s1) (f2 v2 s2)"
  shows "agree (and_then m1 f1 st1) (and_then m2 f2 st2)"
proof (cases "m1 st1")
  case (Pair r1 s1)
  obtain r2 s2 where m2: "m2 st2 = (r2, s2)" by (cases "m2 st2")
  show ?thesis
  proof (cases r1)
    case (Inl f)
    with Pair m2 assms(1) show ?thesis by (auto simp: agree_def and_then_def)
  next
    case (Inr v1)
    with Pair m2 assms(1) obtain v2 where r2: "r2 = Inr v2"
      by (cases r2) (auto simp: agree_def)
    from Pair m2 Inr r2 assms(1) have "wf_heap (heap s1)" "wf_heap (heap s2)"
      "same_args (heap s1) [v1] (heap s2) [v2]"
      by (auto simp: agree_def same_args_def)
    with assms(2) [of v1 s1 v2 s2] Pair m2 Inr r2 show ?thesis
      by (simp add: and_then_def)
  qed
qed

lemma agree_deepcopy:
  assumes wf: "wf_heap (heap st1)" "wf_heap (heap st2)"
    and a: "a1 < length (heap st1)" "a2 < length (heap st2)"
    and sv: "same_value (heap st1) (Ref a1) (heap st2) (Ref a2)"
  shows "agree (deepcopy (Ref a1) st1) (deepcopy (Ref a2) st2)"
proof (cases "deepcopy_heap (heap st1) (Ref a1)")
  case None
  with deepcopy_heap_None [OF wf(1) a(1)] sv deepcopy_heap_None [OF wf(2) a(2)]
  have "deepcopy_heap (heap st2) (Ref a2) = None"
    by (simp add: same_value_def)
  with None wf show ?thesis
    by (simp add: agree_def deepcopy_def fail_def)
next
  case (Some r1)
  with deepcopy_heap_None [OF wf(1) a(1)] sv deepcopy_heap_None [OF wf(2) a(2)]
  obtain r2 where Some2: "deepcopy_heap (heap st2) (Ref a2) = Some r2"
    by (cases "deepcopy_heap (heap st2) (Ref a2)") (auto simp: same_value_def)
  obtain v1 h1 where r1: "r1 = (v1, h1)" by (cases r1)
  obtain v2 h2 where r2: "r2 = (v2, h2)" by (cases r2)
  from deepcopy_heap_same_value [OF wf(1) a(1)] Some r1 obtain b1 where
    1: "v1 = Ref b1" "b1 < length h1" "wf_heap h1"
       "same_value h1 (Ref b1) (heap st1) (Ref a1)" by blast
  from deepcopy_heap_same_value [OF wf(2) a(2)] Some2 r2 obtain b2 where
    2: "v2 = Ref b2" "b2 < length h2" "wf_heap h2"
       "same_value h2 (Ref b2) (heap st2) (Ref a2)" by blast
  from 1(4) sv 2(4) have "same_value h1 (Ref b1) h2 (Ref b2)"
    by (blast intro: same_value_trans same_value_sym)
  with 1 2 Some Some2 r1 r2 show ?thesis
    by (simp add: agree_def deepcopy_def valid_def)
qed

lemma same_args_nth:
  "same_args h1 args1 h2 args2 \<Longrightarrow> i < length args1 \<Longrightarrow>
   valid h1 (args1 ! i) \<and> valid h2 (args2 ! i) \<and> same_value h1 (args1 ! i) h2 (args2 ! i)"
  by (simp add: same_args_def list_all2_conv_all_nth)

lemma same_args_length: "same_args h1 args1 h2 args2 \<Longrightarrow> length args1 = length args2"
  by (simp add: same_args_def list_all2_lengthD)

lemma same_args_sub4:
  "same_args h1 args1 h2 args2 \<Longrightarrow> length args1 = 4 \<Longrightarrow>
   same_args h1 [args1 ! 0, args1 ! 1, args1 ! 2, args1 ! 3] h2 [args2 ! 0, args2 ! 1, args2 ! 2, args2 ! 3]"
  using same_args_nth [of h1 args1 h2 args2]
  by (simp add: same_args_def)

lemma same_args_sub2:
  "same_args h1 args1 h2 args2 \<Longrightarrow> length args1 = 2 \<Longrightarrow>
   same_args h1 [args1 ! 0, args1 ! 1] h2 [args2 ! 0, args2 ! 1]"
  using same_args_nth [of h1 args1 h2 args2]
  by (simp add: same_args_def)

lemma same_args_sub1:
  "same_args h1 args1 h2 args2 \<Longrightarrow> length args1 = 1 \<Longrightarrow>
   same_args h1 [args1 ! 0] h2 [args2 ! 0]"
  using same_args_nth [of h1 args1 h2 args2]
  by (simp add: same_args_def)

lemma agree_ss2tf:
  assumes vd: "value_determined env StateSpace" "value_determined env convertToTransferFunction"
    and wf: "wf_heap (heap st1)" "wf_heap (heap st2)"
    and sa: "same_args (heap st1) args1 (heap st2) args2"
  shows "agree (ss2tf env args1 st1) (ss2tf env args2 st2)"
proof -
  note len = same_args_length [OF sa]
  show ?thesis
  proof (cases "length args1 = 4")
    case True
    have "agree
       (and_then (invoke env StateSpace [args1 ! 0, args1 ! 1, args1 ! 2, args1 ! 3] [])
          (\<lambda>s. invoke env convertToTransferFunction [s] []) st1)
       (and_then (invoke env StateSpace [args2 ! 0, args2 ! 1, args2 ! 2, args2 ! 3] [])
          (\<lambda>s. invoke env convertToTransferFunction [s] []) st2)"
      by (intro agree_and_then agree_invoke vd wf same_args_sub4 [OF sa True])
    with True len show ?thesis by (simp add: ss2tf_def)
  next
    case n4: False
    show ?thesis
    proof (cases "length args1 = 1")
      case True
      note a = same_args_nth [OF sa, of 0]
      from a True have cls: "is_StateSpace (heap st1) (args1 ! 0) = is_StateSpace (heap st2) (args2 ! 0)"
        by (simp add: same_value_is_StateSpace)
      have "agree (invoke env convertToTransferFunction [args1 ! 0] [] st1)
          (invoke env convertToTransferFunction [args2 ! 0] [] st2)"
        by (intro agree_invoke vd wf same_args_sub1 [OF sa True])
      with True len n4 cls wf show ?thesis
        by (simp add: ss2tf_def Let_def agree_raise)
    next
      case False
      with n4 len wf show ?thesis by (simp add: ss2tf_def Let_def agree_raise)
    qed
  qed
qed

lemma agree_tf2ss:
  assumes vd: "value_determined env TransferFunction" "value_determined env convertToStateSpace"
    and wf: "wf_heap (heap st1)" "wf_heap (heap st2)"
    and sa: "same_args (heap st1) args1 (heap st2) args2"
  shows "agree (tf2ss env args1 st1) (tf2ss env args2 st2)"
proof -
  note len = same_args_length [OF sa]
  show ?thesis
  proof (cases "length args1 = 2")
    case True
    have "agree
       (and_then (invoke env TransferFunction [args1 ! 0, args1 ! 1] [])
          (\<lambda>t. invoke env convertToStateSpace [t] []) st1)
       (and_then (invoke env TransferFunction [args2 ! 0, args2 ! 1] [])
          (\<lambda>t. invoke env convertToStateSpace [t] []) st2)"
      by (intro agree_and_then agree_invoke vd wf same_args_sub2 [OF sa True])
    with True len show ?thesis by (simp add: tf2ss_def)
  next
    case n2: False
    show ?thesis
    proof (cases "length args1 = 1")
      case True
      note a = same_args_nth [OF sa, of 0]
      from a True have cls: "is_TransferFunction (heap st1) (args1 ! 0)
          = is_TransferFunction (heap st2) (args2 ! 0)"
        by (simp add: same_value_is_TransferFunction)
      have "agree (invoke env convertToStateSpace [args1 ! 0] [] st1)
          (invoke env convertToStateSpace [args2 ! 0] [] st2)"
        by (intro agree_invoke vd wf same_args_sub1 [OF sa True])
      with True len n2 cls wf show ?thesis
        by (simp add: tf2ss_def Let_def agree_raise)
    next
      case False
      with n2 len wf show ?thesis by (simp add: tf2ss_def Let_def agree_raise)
    qed
  qed
qed

lemma agree_deepcopy_arg:
  assumes wf: "wf_heap (heap st1)" "wf_heap (heap st2)"
    and sv: "same_value (heap st1) v1 (heap st2) v2"
    and cls: "is_StateSpace (heap st1) v1 \<or> is_TransferFunction (heap st1) v1"
  shows "agree (deepcopy v1 st1) (deepcopy v2 st2)"
proof -
  from sv cls have cls2: "is_StateSpace (heap st2) v2 \<or> is_TransferFunction (heap st2) v2"
    by (simp add: same_value_is_StateSpace same_value_is_TransferFunction)
  from cls obtain a1 where 1: "v1 = Ref a1" "a1 < length (heap st1)"
    by (cases v1) (auto simp: is_StateSpace_def is_TransferFunction_def lookup_def
        split: if_splits)
  from cls2 obtain a2 where 2: "v2 = Ref a2" "a2 < length (heap st2)"
    by (cases v2) (auto simp: is_StateSpace_def is_TransferFunction_def lookup_def
        split: if_splits)
  from agree_deepcopy [OF wf 1(2) 2(2)] sv 1(1) 2(1) show ?thesis by simp
qed

lemma agree_ss:
  assumes vd: "value_determined env StateSpace" "value_determined env TransferFunction"
      "value_determined env convertToStateSpace"
    and wf: "wf_heap (heap st1)" "wf_heap (heap st2)"
    and sa: "same_args (heap st1) args1 (heap st2) args2"
  shows "agree (ss env args1 st1) (ss env args2 st2)"
proof -
  note len = same_args_length [OF sa]
  show ?thesis
  proof (cases "length args1 = 4")
    case True
    have "agree (invoke env StateSpace [args1 ! 0, args1 ! 1, args1 ! 2, args1 ! 3] [] st1)
       (invoke env StateSpace [args2 ! 0, args2 ! 1, args2 ! 2, args2 ! 3] [] st2)"
      by (intro agree_invoke vd wf same_args_sub4 [OF sa True])
    with True len show ?thesis by (simp add: ss_def)
  next
    case n4: False
    show ?thesis
    proof (cases "length args1 = 1")
      case True
      from same_args_nth [OF sa, of 0] True
      have sv: "same_value (heap st1) (args1 ! 0) (heap st2) (args2 ! 0)" by simp
      then have cls: "is_StateSpace (heap st1) (args1 ! 0) = is_StateSpace (heap st2) (args2 ! 0)"
        "is_TransferFunction (heap st1) (args1 ! 0) = is_TransferFunction (heap st2) (args2 ! 0)"
        by (simp_all add: same_value_is_StateSpace same_value_is_TransferFunction)
      have t: "agree (tf2ss env [args1 ! 0] st1) (tf2ss env [args2 ! 0] st2)"
        by (intro agree_tf2ss vd wf same_args_sub1 [OF sa True])
      have d: "is_StateSpace (heap st1) (args1 ! 0) \<Longrightarrow>
          agree (deepcopy (args1 ! 0) st1) (deepcopy (args2 ! 0) st2)"
        using agree_deepcopy_arg [OF wf sv] by blast
      from True len n4 cls wf t d show ?thesis
        by (simp add: ss_def Let_def agree_raise)
    next
      case False
      with n4 len wf show ?thesis by (simp add: ss_def Let_def agree_raise)
    qed
  qed
qed

lemma agree_tf:
  assumes vd: "value_determined env StateSpace" "value_determined env TransferFunction"
      "value_determined env convertToTransferFunction"
    and wf: "wf_heap (heap st1)" "wf_heap (heap st2)"
    and sa: "same_args (heap st1) args1 (heap st2) args2"
  shows "agree (tf env args1 st1) (tf env args2 st2)"
proof -
  note len = same_args_length [OF sa]
  show ?thesis
  proof (cases "length args1 = 2")
    case True
    have "agree (invoke env TransferFunction [args1 ! 0, args1 ! 1] [] st1)
       (invoke env TransferFunction [args2 ! 0, args2 ! 1] [] st2)"
      by (intro agree_invoke vd wf same_args_sub2 [OF sa True])
    with True len show ?thesis by (simp add: tf_def)
  next
    case n2: False
    show ?thesis
    proof (cases "length args1 = 1")
      case True
      from same_args_nth [OF sa, of 0] True
      have sv: "same_value (heap st1) (args1 ! 0) (heap st2) (args2 ! 0)" by simp
      then have cls: "is_StateSpace (heap st1) (args1 ! 0) = is_StateSpace (heap st2) (args2 ! 0)"
        "is_TransferFunction (heap st1) (args1 ! 0) = is_TransferFunction (heap st2) (args2 ! 0)"
        by (simp_all add: same_value_is_StateSpace same_value_is_TransferFunction)
      have t: "agree (ss2tf env [args1 ! 0] st1) (ss2tf env [args2 ! 0] st2)"
        by (intro agree_ss2tf vd wf same_args_sub1 [OF sa True])
      have d: "is_TransferFunction (heap st1) (args1 ! 0) \<Longrightarrow>
          agree (deepcopy (args1 ! 0) st1) (deepcopy (args2 ! 0) st2)"
        using agree_deepcopy_arg [OF wf sv] by blast
      from True len n2 cls wf t d show ?thesis
        by (simp add: tf_def Let_def agree_raise)
    next
      case False
      with n2 len wf show ?thesis by (simp add: tf_def Let_def agree_raise)
    qed
  qed
qed

lemma wrappers_stdout:
  "stdout (snd (ss env args st)) = stdout st \<and> stdout (snd (tf env args st)) = stdout st
   \<and> stdout (snd (ss2tf env args st)) = stdout st \<and> stdout (snd (tf2ss env args st)) = stdout st"
  by (auto simp: ss_def tf_def ss2tf_def tf2ss_def and_then_def invoke_def deepcopy_def raise_def
      fail_def Let_def split: prod.splits sum.splits option.splits)

lemma example_constructor_determined:
  assumes wf: "wf_heap h1" "wf_heap h2" and sa: "same_args h1 args1 h2 args2"
    and o1: "set (obj_refs obj1) \<subseteq> (\<Union>v \<in> set args1. set (val_refs v))"
    and o2: "set (obj_refs obj2) \<subseteq> (\<Union>v \<in> set args2. set (val_refs v))"
    and sk: "obj_skel obj1 = obj_skel obj2"
    and v1: "obj_vals obj1 = args1" and v2: "obj_vals obj2 = args2"
  shows "agree_ext (Inr (Ref (length h1)), h1 @ [obj1]) (Inr (Ref (length h2)), h2 @ [obj2])"
proof -
  have val1: "\<forall>v \<in> set args1. valid h1 v" and val2: "\<forall>v \<in> set args2. valid h2 v"
    using sa by (auto simp: same_args_def list_all2_conv_all_nth in_set_conv_nth)
  have wf1: "wf_heap (h1 @ [obj1])"
    using wf(1) o1 val1 by (fastforce simp: wf_heap_def valid_def less_Suc_eq)
  have wf2: "wf_heap (h2 @ [obj2])"
    using wf(2) o2 val2 by (fastforce simp: wf_heap_def valid_def less_Suc_eq)
  have "denote n (h1 @ [obj1]) (Ref (length h1)) = denote n (h2 @ [obj2]) (Ref (length h2))" for n
  proof (cases n)
    case 0
    then show ?thesis by simp
  next
    case (Suc m)
    have "map (denote m (h1 @ [obj1])) args1 = map (denote m (h2 @ [obj2])) args2"
    proof (rule nth_equalityI)
      show "length (map (denote m (h1 @ [obj1])) args1) = length (map (denote m (h2 @ [obj2])) args2)"
        using same_args_length [OF sa] by simp
    next
      fix i assume "i < length (map (denote m (h1 @ [obj1])) args1)"
      then have i: "i < length args1" by simp
      with same_args_length [OF sa] have i2: "i < length args2" by simp
      from same_args_nth [OF sa i] have
        a: "valid h1 (args1 ! i)" "valid h2 (args2 ! i)" "same_value h1 (args1 ! i) h2 (args2 ! i)"
        by blast+
      have "denote m (h1 @ [obj1]) (args1 ! i) = denote m h1 (args1 ! i)"
        using wf(1) a(1) by (rule denote_append)
      moreover have "denote m (h2 @ [obj2]) (args2 ! i) = denote m h2 (args2 ! i)"
        using wf(2) a(2) by (rule denote_append)
      ultimately show "map (denote m (h1 @ [obj1])) args1 ! i = map (denote m (h2 @ [obj2])) args2 ! i"
        using a(3) i i2 by (simp add: same_value_def)
    qed
    with Suc sk v1 v2 show ?thesis by (simp add: lookup_def)
  qed
  then have "same_value (h1 @ [obj1]) (Ref (length h1)) (h2 @ [obj2]) (Ref (length h2))"
    by (simp add: same_value_def)
  with wf1 wf2 show ?thesis by (simp add: agree_ext_def valid_def)
qed

lemma example_env_determined:
  "value_determined example_env StateSpace \<and> value_determined example_env TransferFunction
   \<and> value_determined example_env convertToTransferFunction
   \<and> value_determined example_env convertToStateSpace"
proof (intro conjI)
  show "value_determined example_env StateSpace"
    unfolding value_determined_def
  proof (intro allI impI)
    fix args1 args2 kw h1 h2
    assume h: "wf_heap h1 \<and> wf_heap h2 \<and> same_args h1 args1 h2 args2"
    note len = same_args_length [of h1 args1 h2 args2]
    show "agree_ext (extern example_env StateSpace args1 kw h1)
        (extern example_env StateSpace args2 kw h2)"
    proof (cases "length args1 = 4")
      case True
      with h len have l2: "length args2 = 4" by simp
      from True have a1: "args1 = [args1 ! 0, args1 ! 1, args1 ! 2, args1 ! 3]"
        by (auto simp: list_eq_iff_nth_eq less_Suc_eq numeral_eq_Suc)
      from l2 have a2: "args2 = [args2 ! 0, args2 ! 1, args2 ! 2, args2 ! 3]"
        by (auto simp: list_eq_iff_nth_eq less_Suc_eq numeral_eq_Suc)
      have "agree_ext
         (Inr (Ref (length h1)), h1 @ [StateSpaceObj (args1 ! 0) (args1 ! 1) (args1 ! 2) (args1 ! 3)])
         (Inr (Ref (length h2)), h2 @ [StateSpaceObj (args2 ! 0) (args2 ! 1) (args2 ! 2) (args2 ! 3)])"
      proof (rule example_constructor_determined)
        show "set (obj_refs (StateSpaceObj (args1 ! 0) (args1 ! 1) (args1 ! 2) (args1 ! 3)))
            \<subseteq> (\<Union>v \<in> set args1. set (val_refs v))"
          by (subst (5) a1) auto
        show "set (obj_refs (StateSpaceObj (args2 ! 0) (args2 ! 1) (args2 ! 2) (args2 ! 3)))
            \<subseteq> (\<Union>v \<in> set args2. set (val_refs v))"
          by (subst (5) a2) auto
        show "obj_vals (StateSpaceObj (args1 ! 0) (args1 ! 1) (args1 ! 2) (args1 ! 3)) = args1"
          using a1 by simp
        show "obj_vals (StateSpaceObj (args2 ! 0) (args2 ! 1) (args2 ! 2) (args2 ! 3)) = args2"
          using a2 by simp
      qed (use h in simp_all)
      with True l2 show ?thesis by (simp add: example_env_def example_extern_def)
    next
      case False
      with h len have "length args2 \<noteq> 4" by simp
      with False h show ?thesis
        by (simp add: example_env_def example_extern_def agree_ext_def)
    qed
  qed
next
  show "value_determined example_env TransferFunction"
    unfolding value_determined_def
  proof (intro allI impI)
    fix args1 args2 kw h1 h2
    assume h: "wf_heap h1 \<and> wf_heap h2 \<and> same_args h1 args1 h2 args2"
    note len = same_args_length [of h1 args1 h2 args2]
    show "agree_ext (extern example_env TransferFunction args1 kw h1)
        (extern example_env TransferFunction args2 kw h2)"
    proof (cases "length args1 = 2")
      case True
      with h len have l2: "length args2 = 2" by simp
      from True have a1: "args1 = [args1 ! 0, args1 ! 1]"
        by (auto simp: list_eq_iff_nth_eq less_Suc_eq numeral_eq_Suc)
      from l2 have a2: "args2 = [args2 ! 0, args2 ! 1]"
        by (auto simp: list_eq_iff_nth_eq less_Suc_eq numeral_eq_Suc)
      have "agree_ext
         (Inr (Ref (length h1)), h1 @ [TransferFunctionObj (args1 ! 0) (args1 ! 1)])
         (Inr (Ref (length h2)), h2 @ [TransferFunctionObj (args2 ! 0) (args2 ! 1)])"
      proof (rule example_constructor_determined)
        show "set (obj_refs (TransferFunctionObj (args1 ! 0) (args1 ! 1)))
            \<subseteq> (\<Union>v \<in> set args1. set (val_refs v))"
          by (subst (3) a1) auto
        show "set (obj_refs (TransferFunctionObj (args2 ! 0) (args2 ! 1)))
            \<subseteq> (\<Union>v \<in> set args2. set (val_refs v))"
          by (subst (3) a2) auto
        show "obj_vals (TransferFunctionObj (args1 ! 0) (args1 ! 1)) = args1"
          using a1 by simp
        show "obj_vals (TransferFunctionObj (args2 ! 0) (args2 ! 1)) = args2"
          using a2 by simp
      qed (use h in simp_all)
      with True l2 show ?thesis by (simp add: example_env_def example_extern_def)
    next
      case False
      with h len have "length args2 \<noteq> 2" by simp
      with False h show ?thesis
        by (simp add: example_env_def example_extern_def agree_ext_def)
    qed
  qed
next
  show "value_determined example_env convertToTransferFunction"
    by (simp add: value_determined_def example_env_def example_extern_def agree_ext_def)
next
  show "value_determined example_env convertToStateSpace"
    by (simp add: value_determined_def example_env_def example_extern_def agree_ext_def)
qed

lemma example_later_same_args:
  assumes "\<forall>v \<in> set args. valid (heap example_state) v"
  shows "same_args (heap example_state) args (heap later_state) args"
proof -
  have wf: "wf_heap (heap example_state)"
    by (simp add: wf_heap_def example_state_def)
  have "valid (heap example_state) v \<Longrightarrow>
      valid (heap later_state) v \<and> same_value (heap example_state) v (heap later_state) v" for v
    using denote_append [OF wf, of v _ "[NdArray [[7]]]"]
    by (auto simp: same_value_def later_state_def valid_def)
  with assms show ?thesis
    by (simp add: same_args_def list_all2_same)
qed

text \<open>
  Claim C7. The conversion wrappers keep no state. Take two calls of \<open>ss\<close> (or \<open>tf\<close>,
  \<open>ss2tf\<close>, \<open>tf2ss\<close>) whose arguments have the same values, made in any two
  well-formed states: the records of earlier calls, the output so far and the objects
  the arguments do not reach may all differ. Provided the constructors and converters
  they delegate to are determined by the values of their arguments, the two calls
  return results of the same value, or fail with the same exception; and a call
  writes nothing to the output. So what a call returns does not depend on the calls
  that came before it.
\<close>

theorem conversion_wrappers_stateless:
  assumes "value_determined env StateSpace" and "value_determined env TransferFunction"
    and "value_determined env convertToTransferFunction"
    and "value_determined env convertToStateSpace"
    and "wf_heap (heap st1)" and "wf_heap (heap st2)"
    and "same_args (heap st1) args1 (heap st2) args2"
  shows "agree (ss env args1 st1) (ss env args2 st2)
     \<and> agree (tf env args1 st1) (tf env args2 st2)
     \<and> agree (ss2tf env args1 st1) (ss2tf env args2 st2)
     \<and> agree (tf2ss env args1 st1) (tf2ss env args2 st2)
     \<and> stdout (snd (ss env args1 st1)) = stdout st1
     \<and> stdout (snd (tf env args1 st1)) = stdout st1
     \<and> stdout (snd (ss2tf env args1 st1)) = stdout st1
     \<and> stdout (snd (tf2ss env args1 st1)) = stdout st1"
  using assms
  by (simp add: agree_ss agree_tf agree_ss2tf agree_tf2ss wrappers_stdout)

theorem conversion_wrappers_stateless_witness:
  "wf_heap (heap example_state) \<and> wf_heap (heap later_state)
   \<and> same_args (heap example_state) [Ref 4] (heap later_state) [Ref 4]
   \<and> agree (ss example_env [Ref 4] example_state) (ss example_env [Ref 4] later_state)
   \<and> agree (tf example_env [Ref 4] example_state) (tf example_env [Ref 4] later_state)
   \<and> agree (ss2tf example_env [Ref 4] example_state) (ss2tf example_env [Ref 4] later_state)
   \<and> agree (tf2ss example_env [Ref 4] example_state) (tf2ss example_env [Ref 4] later_state)
   \<and> agree (ss example_env [Ref 0, Ref 1, Ref 2, Ref 3] example_state)
       (ss example_env [Ref 0, Ref 1, Ref 2, Ref 3] later_state)
   \<and> fst (ss example_env [Ref 4] example_state) = Inr (Ref 5)
   \<and> fst (ss example_env [Ref 4] later_state) = Inr (Ref 6)"
proof -
  have wf: "wf_heap (heap example_state)" "wf_heap (heap later_state)"
    by (simp_all add: wf_heap_def example_state_def later_state_def)
  have sa1: "same_args (heap example_state) [Ref 4] (heap later_state) [Ref 4]"
    by (rule example_later_same_args) (simp add: valid_def example_state_def)
  have sa4: "same_args (heap example_state) [Ref 0, Ref 1, Ref 2, Ref 3]
      (heap later_state) [Ref 0, Ref 1, Ref 2, Ref 3]"
    by (rule example_later_same_args) (simp add: valid_def example_state_def)
  note d = example_env_determined
  note t1 = conversion_wrappers_stateless
    [of example_env example_state later_state "[Ref 4]" "[Ref 4]"]
  note t4 = conversion_wrappers_stateless
    [of example_env example_state later_state "[Ref 0, Ref 1, Ref 2, Ref 3]"
      "[Ref 0, Ref 1, Ref 2, Ref 3]"]
  have r1: "fst (ss example_env [Ref 4] example_state) = Inr (Ref 5)"
    by (simp add: ss_def is_StateSpace_def lookup_def deepcopy_def deepcopy_heap_def
        reach.simps renaming_def example_state_def copy_refs_def is_atomic_def copied_def)
  have r2: "fst (ss example_env [Ref 4] later_state) = Inr (Ref 6)"
    by (simp add: ss_def is_StateSpace_def lookup_def deepcopy_def deepcopy_heap_def
        reach.simps renaming_def example_state_def later_state_def copy_refs_def
        is_atomic_def copied_def)
  from t1 t4 d wf sa1 sa4 r1 r2 show ?thesis by blast
qed

end
